theory Spec2Isabelle
  imports Main "HOL-Library.Word"
begin

section \<open>Basic types of the log gatherer\<close>

text \<open>
  The program is a single Go file, \<^verbatim>\<open>cmd/main.go\<close>. Bytes are \<^verbatim>\<open>uint8\<close>, Go's
  \<^verbatim>\<open>error\<close> interface is a datatype and a nil error is \<open>None\<close>. \<open>EOF\<close> is
  \<^verbatim>\<open>io.EOF\<close>, \<open>ErrNotExist\<close> is any error for which
  \<^verbatim>\<open>errors.Is(err, os.ErrNotExist)\<close> holds, \<open>Err msg\<close> is any other error.
\<close>

type_synonym byte = "8 word"

datatype error = EOF | ErrNotExist | Err string

subsection \<open>Time\<close>

text \<open>
  A \<^verbatim>\<open>time.Time\<close> is the instant it denotes, in nanoseconds since
  1970-01-01T00:00:00Z. A \<^verbatim>\<open>time.Duration\<close> is an \<^verbatim>\<open>int64\<close> count of
  nanoseconds, so the product \<^verbatim>\<open>-1 * dur\<close> of the source is a product of 64-bit words.
  \<^verbatim>\<open>After\<close> and \<^verbatim>\<open>Before\<close> compare instants; \<^verbatim>\<open>time.Unix(sec, nsec)\<close> is the instant
  \<open>sec\<close> seconds and \<open>nsec\<close> nanoseconds after the epoch.
\<close>

type_synonym Time = int


definition After :: "Time \<Rightarrow> Time \<Rightarrow> bool" where
  "After t u = (u < t)"

definition Before :: "Time \<Rightarrow> Time \<Rightarrow> bool" where
  "Before t u = (t < u)"


definition Unix :: "int \<Rightarrow> int \<Rightarrow> Time" where
  "Unix sec nsec = sec * 1000000000 + nsec"

text \<open>
  \<^verbatim>\<open>t.Format("20060102T150405Z")\<close> for a time in UTC: the year with at least four
  digits, month, day, the letter T, hour, minute, second with two digits each, and the
  letter Z (a lone Z in a layout is literal text). \<open>civil\<close> turns a count of days
  since the epoch into year, month and day of the proleptic Gregorian calendar: it
  counts from the first of March of the year 0 and cuts off cycles of 400, 100, 4 and 1
  years, the last day of a cycle of 400 or of 4 years being the leap day.
  \<open>appendInt\<close> is the zero padding of Go's formatter.
\<close>

fun digits :: "nat \<Rightarrow> string" where
  "digits n =
     (if n < 10 then [''0123456789'' ! n]
      else digits (n div 10) @ [''0123456789'' ! (n mod 10)])"

declare digits.simps [simp del]

definition appendInt :: "int \<Rightarrow> nat \<Rightarrow> string" where
  "appendInt x width =
     (let ds = digits (nat \<bar>x\<bar>)
      in (if x < 0 then ''-'' else []) @ replicate (width - length ds) CHR ''0'' @ ds)"

definition civil :: "int \<Rightarrow> int \<times> int \<times> int" where
  "civil days =
     (let z = days + 719468;
          era = z div 146097;
          doe = z mod 146097;
          n100 = min 3 (doe div 36524);
          doc = doe - 36524 * n100;
          n4 = doc div 1461;
          doq = doc mod 1461;
          n1 = min 3 (doq div 365);
          doy = doq - 365 * n1;
          mp = (5 * doy + 2) div 153;
          d = doy - (153 * mp + 2) div 5 + 1;
          m = (if mp < 10 then mp + 3 else mp - 9);
          y = 400 * era + 100 * n100 + 4 * n4 + n1 + (if m \<le> 2 then 1 else 0)
      in (y, m, d))"

definition Format :: "Time \<Rightarrow> string" where
  "Format t =
     (let sec = t div 1000000000;
          secs = sec mod 86400
      in case civil (sec div 86400) of
           (y, m, d) \<Rightarrow>
             appendInt y 4 @ appendInt m 2 @ appendInt d 2 @ ''T'' @
             appendInt (secs div 3600) 2 @ appendInt (secs mod 3600 div 60) 2 @
             appendInt (secs mod 60) 2 @ ''Z'')"

subsection \<open>Strings\<close>

text \<open>
  \<^verbatim>\<open>strings.HasSuffix(s, suffix)\<close> is
  \<^verbatim>\<open>len(s) >= len(suffix) && s[len(s)-len(suffix):] == suffix\<close>.
  \<^verbatim>\<open>strings.Split(s, sep)\<close> and \<^verbatim>\<open>strings.ReplaceAll(s, old, new)\<close> are only
  called with one-character arguments, so the separator and the replaced text are
  characters here. Splitting the empty string gives one empty part.
\<close>

definition HasSuffix :: "string \<Rightarrow> string \<Rightarrow> bool" where
  "HasSuffix s suffix =
     (length suffix \<le> length s \<and> drop (length s - length suffix) s = suffix)"


definition ReplaceAll :: "string \<Rightarrow> char \<Rightarrow> char \<Rightarrow> string" where
  "ReplaceAll s old new = map (\<lambda>c. if c = old then new else c) s"

section \<open>The stream copier: \<^verbatim>\<open>copyFile\<close> (main.go, lines 190 to 206)\<close>

text \<open>
  \<^verbatim>\<open>
  func copyFile(source io.Reader, dest io.Writer) error {
      buf := make([]byte, 1024)
      for {
          n, err := source.Read(buf)
          if err != nil && err != io.EOF { return err }
          if n == 0 { break }
          if _, err := dest.Write(buf[:n]); err != nil { return err }
      }
      return nil
  }
  \<close>
  An \<^verbatim>\<open>io.Reader\<close> is a state \<open>'r\<close> with its \<^verbatim>\<open>Read\<close> method: given the state and
  the length of the buffer it returns the bytes it put into the buffer (\<open>n\<close> is their
  number), its error, and the next state. An \<^verbatim>\<open>io.Writer\<close> is a state \<open>'w\<close> with its
  \<^verbatim>\<open>Write\<close> method; the byte count that \<^verbatim>\<open>Write\<close> returns is discarded by the source.
  The loop has no bound of its own: it ends only when the reader returns no bytes or
  an error occurs, so it is a partial function, and \<open>None\<close> means that it never
  returns. The result holds the returned error and the states the two streams are
  left in.
\<close>

type_synonym 'r Reader = "'r \<Rightarrow> nat \<Rightarrow> (byte list \<times> error option) \<times> 'r"

type_synonym 'w Writer = "'w \<Rightarrow> byte list \<Rightarrow> error option \<times> 'w"

partial_function (option) copyFile ::
  "'r Reader \<Rightarrow> 'w Writer \<Rightarrow> 'r \<Rightarrow> 'w \<Rightarrow> (error option \<times> 'r \<times> 'w) option"
where
  "copyFile Read Write source dest =
     (case Read source 1024 of
        ((buf, err), source') \<Rightarrow>
          if err \<noteq> None \<and> err \<noteq> Some EOF then Some (err, source', dest)
          else if length buf = 0 then Some (None, source', dest)
          else (case Write dest buf of
                  (werr, dest') \<Rightarrow>
                    if werr \<noteq> None then Some (werr, source', dest')
                    else copyFile Read Write source' dest'))"

subsection \<open>The streams that \<^verbatim>\<open>CopyFiles\<close> copies between\<close>

text \<open>
  The source of a copy is an \<^verbatim>\<open>*os.File\<close>. It is given by the outcomes of its
  successive \<^verbatim>\<open>Read\<close> calls, each the bytes delivered and the error returned with
  them; a \<^verbatim>\<open>Read\<close> never delivers more bytes than its buffer holds, and after the
  last listed outcome every \<^verbatim>\<open>Read\<close> returns no bytes and \<^verbatim>\<open>io.EOF\<close>.
\<close>

type_synonym reads = "(byte list \<times> error option) list"

definition file_Read :: "reads Reader" where
  "file_Read f n =
     (case f of
        [] \<Rightarrow> (([], Some EOF), [])
      | (bs, err) # rest \<Rightarrow> ((take n bs, err), rest))"

text \<open>
  The destination \<open>d\<close> of a copy is an \<^verbatim>\<open>*os.File\<close> or a \<^verbatim>\<open>*gzip.Writer\<close> on
  top of one. \<open>accepted\<close> is the bytes that its \<^verbatim>\<open>Write\<close> calls have taken so far,
  \<open>pending\<close> the outcomes of the \<^verbatim>\<open>Write\<close> calls to come (\<open>None\<close>: the call
  succeeds; \<open>Some (e, k)\<close>: it fails with \<open>e\<close> after \<open>k\<close> bytes; every call after
  the listed ones succeeds), \<open>broken\<close> whether a \<^verbatim>\<open>Write\<close> has failed.
\<close>

record writer =
  accepted :: "byte list"
  pending :: "(error \<times> nat) option list"
  broken :: bool

definition dest_Write :: "writer Writer" where
  "dest_Write w bs =
     (case pending w of
        [] \<Rightarrow> (None, w\<lparr>accepted := accepted w @ bs\<rparr>)
      | None # rest \<Rightarrow> (None, w\<lparr>accepted := accepted w @ bs, pending := rest\<rparr>)
      | Some (e, k) # rest \<Rightarrow>
          (Some e, w\<lparr>accepted := accepted w @ take k bs, pending := rest, broken := True\<rparr>))"

text \<open>
  A read that lets the loop go on: it delivers at least one byte and at most a buffer
  of 1024, with no error or with \<^verbatim>\<open>io.EOF\<close>.
\<close>

definition good_read :: "byte list \<times> error option \<Rightarrow> bool" where
  "good_read r = (fst r \<noteq> [] \<and> length (fst r) \<le> 1024 \<and> (snd r = None \<or> snd r = Some EOF))"

text \<open>
  The bytes of a source: what its reads deliver before the first read of no bytes,
  which is where \<^verbatim>\<open>copyFile\<close> takes the stream to end.
\<close>

definition delivered :: "reads \<Rightarrow> byte list" where
  "delivered rs = concat (map fst (takeWhile (\<lambda>r. fst r \<noteq> []) rs))"

section \<open>The per-server synchronizer: \<^verbatim>\<open>CopyFiles\<close> (main.go, lines 103 to 188)\<close>

text \<open>
  The globals that \<^verbatim>\<open>CopyFiles\<close> reads, set by \<^verbatim>\<open>main\<close> before any worker starts.
\<close>

record globals =
  startTime :: Time
  endTime :: Time
  compress :: bool

text \<open>
  One entry of the listing that \<^verbatim>\<open>os.ReadDir(src)\<close> returns, with the outcome of
  every call that the loop body makes for it: \<^verbatim>\<open>f.Info()\<close>, \<^verbatim>\<open>os.Open\<close>,
  \<^verbatim>\<open>os.Create\<close>, the \<^verbatim>\<open>Write\<close> calls on the destination and \<^verbatim>\<open>os.Chtimes\<close>.
  \<open>fi_creation\<close> is the value of
  \<^verbatim>\<open>finfo.Sys().(*syscall.Win32FileAttributeData).CreationTime.Nanoseconds()\<close>; the
  program builds for Windows only, where \<^verbatim>\<open>Sys()\<close> has that type for every entry of
  a listing, so the type assertion of line 137 does not fail.
\<close>

record fileinfo =
  fi_name :: string
  fi_modtime :: Time
  fi_creation :: int

record dirent =
  d_name :: string
  d_isdir :: bool
  d_info :: "error + fileinfo"
  d_open :: "error + reads"
  d_create :: "error option"
  d_writes :: "(error \<times> nat) option list"
  d_chtimes :: "error option"

text \<open>
  What surrounds one call of \<^verbatim>\<open>CopyFiles\<close>: the outcomes of \<^verbatim>\<open>os.Stat\<close> and
  \<^verbatim>\<open>os.MkdirAll\<close> on the destination folder and of \<^verbatim>\<open>os.ReadDir\<close> on the source,
  the clock, and the encoder of \<^verbatim>\<open>compress/gzip\<close> (the bytes of the gzip stream that
  holds a given payload).
\<close>

record world =
  w_stat :: "error option"
  w_mkdir :: "error option"
  w_readdir :: "error + dirent list"
  w_now :: Time
  w_gzip :: "byte list \<Rightarrow> byte list"

text \<open>
  What a call does is recorded as the list of its log lines and file-system calls, in
  the order they happen, and as the files of the destination tree. The three streams
  of one transfer are the source \<open>s\<close>, the gzip writer (\<open>d\<close> when compressing) and
  the destination file (\<open>zd\<close> when compressing, \<open>d\<close> otherwise). The results of all
  \<^verbatim>\<open>Close\<close> calls are discarded by the source, so \<^verbatim>\<open>Close\<close> has no outcome here;
  the gzip writer hands its stream to the file when it is closed, unless a \<^verbatim>\<open>Write\<close>
  on it has failed.
\<close>

datatype stream = Source | Compressor | Destination

datatype event =
    Info_scanning string
  | Fatal_creating_destination error
  | Fatal_opening_destination error
  | Error_unable_to_open string string error
  | Error_file_info string string error
  | Error_open_source string string error
  | Error_open_destination string string error
  | Error_copy string string error
  | Error_chtimes string string error
  | Info_done string
  | Stat string
  | MkdirAll string
  | ReadDir string
  | Open string
  | Create string
  | NewWriter string
  | Close stream string
  | Chtimes string Time Time
  | Info_cleaning string
  | RemoveAll string
  | Error_cannot_delete string error
  | Fatal_cannot_read string error

record dfile =
  content :: "byte list"
  mtime :: Time

type_synonym files = "string \<rightharpoonup> dfile"

datatype outcome = Returned | Exited

text \<open>The calls of \<^verbatim>\<open>Close\<close> among the events.\<close>

fun is_Close :: "event \<Rightarrow> bool" where
  "is_Close (Close st path) = True"
| "is_Close ev = False"

text \<open>
  Lines 140 to 182: the transfer of one entry that passed the test of line 138.
  \<open>None\<close> means that \<^verbatim>\<open>copyFile\<close> does not return.
\<close>

definition transfer ::
  "world \<Rightarrow> globals \<Rightarrow> string \<Rightarrow> string \<Rightarrow> string \<Rightarrow> dirent \<Rightarrow> string \<Rightarrow> Time \<Rightarrow> files
     \<Rightarrow> (event list \<times> files) option"
where
  "transfer W g server src dst f targetName fMod fs =
     (let spath = src @ ''/'' @ d_name f;
          dpath = dst @ ''/'' @ server @ ''/'' @ targetName;
          created = [Create dpath] @ (if compress g then [NewWriter dpath] else []);
          closes = [Close Source spath] @
                   (if compress g then [Close Compressor dpath, Close Destination dpath]
                    else [Close Destination dpath])
      in case d_open f of
           Inl err \<Rightarrow> Some ([Open spath, Error_open_source server (d_name f) err], fs)
         | Inr s \<Rightarrow>
             (case d_create f of
                Some err \<Rightarrow>
                  Some ([Open spath] @ created @
                        [Error_open_destination server targetName err, Close Source spath], fs)
              | None \<Rightarrow>
                  (case copyFile file_Read dest_Write s
                          \<lparr>accepted = [], pending = d_writes f, broken = False\<rparr> of
                     None \<Rightarrow> None
                   | Some (cerr, s', d') \<Rightarrow>
                       (let stored =
                              (if compress g
                               then (if broken d' then [] else w_gzip W (accepted d'))
                               else accepted d');
                            fs' = fs(dpath \<mapsto> \<lparr>content = stored, mtime = w_now W\<rparr>)
                        in case cerr of
                             Some err \<Rightarrow>
                               Some ([Open spath] @ created @
                                     [Error_copy server targetName err] @ closes, fs')
                           | None \<Rightarrow>
                               (case d_chtimes f of
                                  Some err \<Rightarrow>
                                    Some ([Open spath] @ created @ closes @
                                          [Chtimes dpath (w_now W) fMod,
                                           Error_chtimes server targetName err], fs')
                                | None \<Rightarrow>
                                    Some ([Open spath] @ created @ closes @
                                          [Chtimes dpath (w_now W) fMod],
                                          fs'(dpath \<mapsto> \<lparr>content = stored, mtime = fMod\<rparr>)))))))"

text \<open>Lines 125 to 185: the body of the loop over the listing.\<close>

definition CopyFiles_entry ::
  "world \<Rightarrow> globals \<Rightarrow> string \<Rightarrow> string \<Rightarrow> string \<Rightarrow> dirent \<Rightarrow> files
     \<Rightarrow> (event list \<times> files) option"
where
  "CopyFiles_entry W g server src dst f fs =
     (if \<not> d_isdir f then
        (case d_info f of
           Inl err \<Rightarrow> Some ([Error_file_info server (d_name f) err], fs)
         | Inr finfo \<Rightarrow>
             (let targetName = fi_name finfo @ (if compress g then ''.gz'' else []);
                  fMod = fi_modtime finfo;
                  fCreate = Unix 0 (fi_creation finfo)
              in if After fMod (startTime g) \<and> Before fCreate (endTime g) \<and>
                    HasSuffix (fi_name finfo) ''.tmp''
                 then transfer W g server src dst f targetName fMod fs
                 else Some ([], fs)))
      else Some ([], fs))"

text \<open>Lines 124 to 186: the loop, one entry after the other.\<close>

fun CopyFiles_loop ::
  "world \<Rightarrow> globals \<Rightarrow> string \<Rightarrow> string \<Rightarrow> string \<Rightarrow> dirent list \<Rightarrow> files
     \<Rightarrow> (event list \<times> files) option"
where
  "CopyFiles_loop W g server src dst [] fs = Some ([], fs)"
| "CopyFiles_loop W g server src dst (f # sdir) fs =
     (case CopyFiles_entry W g server src dst f fs of
        None \<Rightarrow> None
      | Some (evs, fs') \<Rightarrow>
          (case CopyFiles_loop W g server src dst sdir fs' of
             None \<Rightarrow> None
           | Some (evs', fs'') \<Rightarrow> Some (evs @ evs', fs'')))"

text \<open>
  Lines 103 to 188. \<^verbatim>\<open>log.Fatalf\<close> ends the process, which is the outcome
  \<open>Exited\<close>; otherwise the call returns to its caller. \<^verbatim>\<open>os.Stat\<close> fails with a
  \<^verbatim>\<open>*os.PathError\<close> only, so the type assertion of line 114 does not fail.
\<close>

definition CopyFiles_scan ::
  "world \<Rightarrow> globals \<Rightarrow> string \<Rightarrow> string \<Rightarrow> string \<Rightarrow> files
     \<Rightarrow> (outcome \<times> event list \<times> files) option"
where
  "CopyFiles_scan W g server src dst fs =
     (case w_readdir W of
        Inl err \<Rightarrow> Some (Returned, [ReadDir src, Error_unable_to_open server src err], fs)
      | Inr sdir \<Rightarrow>
          (case CopyFiles_loop W g server src dst sdir fs of
             None \<Rightarrow> None
           | Some (evs, fs') \<Rightarrow> Some (Returned, [ReadDir src] @ evs @ [Info_done server], fs')))"

definition CopyFiles ::
  "world \<Rightarrow> globals \<Rightarrow> string \<Rightarrow> string \<Rightarrow> string \<Rightarrow> files
     \<Rightarrow> (outcome \<times> event list \<times> files) option"
where
  "CopyFiles W g server src dst fs =
     (let folder = dst @ ''/'' @ server;
          begun = [Info_scanning src, Stat folder];
          scan = (\<lambda>evs. case CopyFiles_scan W g server src dst fs of
                           None \<Rightarrow> None
                         | Some (out, evs', fs') \<Rightarrow> Some (out, evs @ evs', fs'))
      in case w_stat W of
           None \<Rightarrow> scan begun
         | Some err \<Rightarrow>
             if err = ErrNotExist then
               (case w_mkdir W of
                  Some err' \<Rightarrow>
                    Some (Exited, begun @ [MkdirAll folder, Fatal_creating_destination err'], fs)
                | None \<Rightarrow> scan (begun @ [MkdirAll folder]))
             else Some (Exited, begun @ [Fatal_opening_destination err], fs))"

section \<open>The fan-out of \<^verbatim>\<open>main\<close> (main.go, lines 79 to 100)\<close>

text \<open>
  Lines 80 to 84 (and again 212 to 216): the destination root. \<^verbatim>\<open>filepath.IsAbs\<close>
  is the library's test, taken as a parameter; \<open>wd\<close> is the directory of the
  executable, whose backslashes become slashes.
\<close>

definition destination_root :: "(string \<Rightarrow> bool) \<Rightarrow> string \<Rightarrow> string \<Rightarrow> string" where
  "destination_root IsAbs wd configured =
     (if IsAbs configured then configured
      else ReplaceAll wd (CHR 0x5C) CHR ''/'' @ ''/'' @ configured)"

text \<open>Line 85: the folder of this run, below the root.\<close>

definition main_destination ::
  "(string \<Rightarrow> bool) \<Rightarrow> string \<Rightarrow> string \<Rightarrow> string \<Rightarrow> globals \<Rightarrow> string"
where
  "main_destination IsAbs wd configured cluster g =
     destination_root IsAbs wd configured @
     ''/'' @ cluster @ ''/'' @ Format (startTime g) @ ''-'' @ Format (endTime g)"

text \<open>
  Lines 92 to 99: the loop over the keys of the cluster's section, in the order of the
  file; a key is its name and its value. \<^verbatim>\<open>k.MustString(d)\<close> is the value, or \<open>d\<close>
  when the value is empty. The arguments of a \<^verbatim>\<open>go\<close> statement are evaluated when
  the statement runs, so each launch is recorded with the arguments it was given:
  server, source path and destination.
\<close>

definition MustString :: "string \<Rightarrow> string \<Rightarrow> string" where
  "MustString val defaultVal = (if length val = 0 then defaultVal else val)"

fun launch :: "(string \<times> string) list \<Rightarrow> string \<Rightarrow> string \<Rightarrow> (string \<times> string \<times> string) list"
where
  "launch [] share destination = []"
| "launch ((name, val) # ks) share destination =
     (if name = ''logshare''
      then launch ks (MustString val ''SPSS_DIMENSIONS_LOGS'') destination
      else (name, ''//'' @ val @ ''/'' @ share, destination) # launch ks share destination)"

text \<open>Lines 87 to 99: \<open>share\<close> starts as the empty string.\<close>

definition main_launches :: "(string \<times> string) list \<Rightarrow> string \<Rightarrow> (string \<times> string \<times> string) list"
where
  "main_launches keys destination = launch keys [] destination"

section \<open>The retention pruner: \<^verbatim>\<open>cleanup\<close> (main.go, lines 208 to 242)\<close>





section \<open>A sample run\<close>

text \<open>
  The window of the specification's example: it starts at 2024-01-01 00:00:00 UTC and
  lasts one hour. The file \<^verbatim>\<open>app.tmp\<close> was created at 23:00 the day before and
  modified at 00:30; it holds three bytes, read in one piece.
\<close>

definition sample_globals :: "bool \<Rightarrow> globals" where
  "sample_globals c =
     \<lparr>startTime = 1704067200000000000, endTime = 1704070800000000000, compress = c\<rparr>"

definition sample_info :: fileinfo where
  "sample_info =
     \<lparr>fi_name = ''app.tmp'', fi_modtime = 1704069000000000000,
      fi_creation = 1704063600000000000\<rparr>"

definition sample_entry :: dirent where
  "sample_entry =
     \<lparr>d_name = ''app.tmp'', d_isdir = False, d_info = Inr sample_info,
      d_open = Inr [([1, 2, 3], None)], d_create = None, d_writes = [],
      d_chtimes = None\<rparr>"

text \<open>
  A world in which every call succeeds. Its encoder stands for gzip: it puts the two
  magic bytes of a gzip stream before the payload, and \<open>sample_gunzip\<close> undoes it.
\<close>

definition sample_gzip :: "byte list \<Rightarrow> byte list" where
  "sample_gzip bs = [0x1F, 0x8B] @ bs"

definition sample_gunzip :: "byte list \<Rightarrow> byte list option" where
  "sample_gunzip bs = (if take 2 bs = [0x1F, 0x8B] then Some (drop 2 bs) else None)"

definition sample_world :: world where
  "sample_world =
     \<lparr>w_stat = None, w_mkdir = None, w_readdir = Inr [sample_entry],
      w_now = 1704074400000000000, w_gzip = sample_gzip\<rparr>"




section \<open>Properties of the stream copier\<close>

text \<open>One turn of the loop of \<^verbatim>\<open>copyFile\<close>, for any reader and any writer.\<close>

lemma copyFile_read_error:
  "Read source 1024 = ((buf, Some e), source') \<Longrightarrow> e \<noteq> EOF \<Longrightarrow>
   copyFile Read Write source dest = Some (Some e, source', dest)"
  by (subst copyFile.simps) simp

lemma copyFile_end:
  "Read source 1024 = (([], err), source') \<Longrightarrow> err = None \<or> err = Some EOF \<Longrightarrow>
   copyFile Read Write source dest = Some (None, source', dest)"
  by (subst copyFile.simps) auto

lemma copyFile_write_error:
  "Read source 1024 = ((buf, err), source') \<Longrightarrow> err = None \<or> err = Some EOF \<Longrightarrow>
   buf \<noteq> [] \<Longrightarrow> Write dest buf = (Some e, dest') \<Longrightarrow>
   copyFile Read Write source dest = Some (Some e, source', dest')"
  by (subst copyFile.simps) auto

lemma copyFile_next:
  "Read source 1024 = ((buf, err), source') \<Longrightarrow> err = None \<or> err = Some EOF \<Longrightarrow>
   buf \<noteq> [] \<Longrightarrow> Write dest buf = (None, dest') \<Longrightarrow>
   copyFile Read Write source dest = copyFile Read Write source' dest'"
  by (subst copyFile.simps) auto

lemma file_Read_Nil: "file_Read [] n = (([], Some EOF), [])"
  by (simp add: file_Read_def)

lemma file_Read_Cons: "file_Read ((bs, err) # rest) n = ((take n bs, err), rest)"
  by (simp add: file_Read_def)

lemma copyFile_returns: "copyFile file_Read dest_Write rs w \<noteq> None"
proof (induction rs arbitrary: w)
  case Nil
  show ?case by (subst copyFile.simps) (simp add: file_Read_Nil file_Read_Cons)
next
  case (Cons r rs)
  obtain bs err where r: "r = (bs, err)" by (cases r)
  obtain werr w' where wr: "dest_Write w (take 1024 bs) = (werr, w')"
    by (cases "dest_Write w (take 1024 bs)")
  from Cons.IH [of w'] show ?case
    by (subst copyFile.simps) (simp add: file_Read_Nil file_Read_Cons r wr)
qed

lemma dest_Write_accepted:
  "dest_Write w bs = (None, w') \<Longrightarrow> accepted w' = accepted w @ bs"
  by (auto simp: dest_Write_def split: list.splits option.splits prod.splits)

lemma copyFile_success_accepted:
  "\<forall>r\<in>set rs. length (fst r) \<le> 1024 \<Longrightarrow>
   copyFile file_Read dest_Write rs w = Some (None, rs', w') \<Longrightarrow>
   accepted w' = accepted w @ delivered rs"
proof (induction rs arbitrary: w)
  case Nil
  from Nil.prems(2) have "w' = w"
    by (subst (asm) copyFile.simps) (simp add: file_Read_Nil file_Read_Cons)
  then show ?case by (simp add: delivered_def)
next
  case (Cons r rs)
  obtain bs err where r: "r = (bs, err)" by (cases r)
  have len: "take 1024 bs = bs" using Cons.prems(1) by (simp add: r)
  obtain werr w1 where wr: "dest_Write w bs = (werr, w1)"
    by (cases "dest_Write w bs")
  show ?case
  proof (cases "bs = []")
    case True
    from Cons.prems(2) have "w' = w"
      by (subst (asm) copyFile.simps) (simp add: file_Read_Nil file_Read_Cons r True split: if_splits)
    then show ?thesis by (simp add: delivered_def r True)
  next
    case False
    from Cons.prems(2) have "werr = None \<and> copyFile file_Read dest_Write rs w1 = Some (None, rs', w')"
      by (subst (asm) copyFile.simps) (simp add: file_Read_Nil file_Read_Cons r len wr False split: if_splits)
    then have "accepted w' = accepted w1 @ delivered rs" and "werr = None"
      using Cons.IH [of w1] Cons.prems(1) by simp_all
    then show ?thesis
      using dest_Write_accepted [of w bs w1] wr by (simp add: delivered_def r False)
  qed
qed


lemma dest_Write_ok:
  "pending w = [] \<or> hd (pending w) = None \<Longrightarrow>
   dest_Write w bs = (None, w\<lparr>accepted := accepted w @ bs, pending := tl (pending w)\<rparr>)"
  by (cases "pending w") (auto simp: dest_Write_def)

lemma dest_Write_fails:
  "pending w = Some (e, k) # later \<Longrightarrow>
   dest_Write w bs =
     (Some e, w\<lparr>accepted := accepted w @ take k bs, pending := later, broken := True\<rparr>)"
  by (simp add: dest_Write_def)

lemma copyFile_prefix:
  "list_all good_read pre \<Longrightarrow> list_all (\<lambda>p. p = None) (take (length pre) (pending w)) \<Longrightarrow>
   copyFile file_Read dest_Write (pre @ rest) w =
   copyFile file_Read dest_Write rest
     (w\<lparr>accepted := accepted w @ concat (map fst pre),
        pending := drop (length pre) (pending w)\<rparr>)"
proof (induction pre arbitrary: w)
  case Nil
  show ?case by simp
next
  case (Cons r pre)
  obtain bs err where r: "r = (bs, err)" by (cases r)
  from Cons.prems(1) have g: "bs \<noteq> []" "take 1024 bs = bs" "err = None \<or> err = Some EOF"
    by (simp_all add: r good_read_def)
  from Cons.prems(2) have p: "pending w = [] \<or> hd (pending w) = None"
    by (cases "pending w") simp_all
  let ?w1 = "w\<lparr>accepted := accepted w @ bs, pending := tl (pending w)\<rparr>"
  have rd: "file_Read ((r # pre) @ rest) 1024 = ((bs, err), pre @ rest)"
    by (simp add: r file_Read_Cons g)
  have step: "copyFile file_Read dest_Write ((r # pre) @ rest) w =
        copyFile file_Read dest_Write (pre @ rest) ?w1"
    by (rule copyFile_next [where Read = file_Read and Write = dest_Write, OF rd g(3) g(1) dest_Write_ok [OF p]])
  have "list_all (\<lambda>p. p = None) (take (length pre) (pending ?w1))"
    using Cons.prems(2) by (cases "pending w") simp_all
  from Cons.IH [OF _ this] Cons.prems(1)
  show ?case unfolding step by (simp add: r drop_Suc)
qed


lemma copyFile_sample:
  "copyFile file_Read dest_Write [([1, 2, 3], None)]
     \<lparr>accepted = [], pending = [], broken = False\<rparr> =
   Some (None, [], \<lparr>accepted = [1, 2, 3], pending = [], broken = False\<rparr>)"
proof -
  have "list_all good_read [([1, 2, 3], None)]" by (simp add: good_read_def)
  from copyFile_prefix [OF this, of "\<lparr>accepted = [], pending = [], broken = False\<rparr>" "[]"]
  have "copyFile file_Read dest_Write [([1, 2, 3], None)]
     \<lparr>accepted = [], pending = [], broken = False\<rparr> =
     copyFile file_Read dest_Write [] \<lparr>accepted = [1, 2, 3], pending = [], broken = False\<rparr>"
    by simp
  also have "\<dots> = Some (None, [], \<lparr>accepted = [1, 2, 3], pending = [], broken = False\<rparr>)"
    by (rule copyFile_end [where Read = file_Read, OF file_Read_Nil]) simp
  finally show ?thesis .
qed

text \<open>
  Claim C2, as amended. The copier reads with a buffer of 1024 bytes and writes every
  chunk it gets, unchanged and in order, until a read delivers no bytes without an
  error other than \<^verbatim>\<open>io.EOF\<close>; then it returns no error. A read error other than
  \<^verbatim>\<open>io.EOF\<close> ends the copy before the bytes of that read are written, a write error
  ends it too, and in both cases the value returned is the error of the failing call
  itself, as it is. The statement is about a source whose first reads \<open>pre\<close> are good
  and a destination that takes them all.
\<close>

theorem copyFile_contract:
  assumes "list_all good_read pre"
    and "list_all (\<lambda>p. p = None) (take (length pre) (pending w))"
  shows "copyFile file_Read dest_Write pre w =
           Some (None, [], w\<lparr>accepted := accepted w @ concat (map fst pre),
                              pending := drop (length pre) (pending w)\<rparr>) \<and>
         (err = None \<or> err = Some EOF \<longrightarrow>
            copyFile file_Read dest_Write (pre @ ([], err) # rest) w =
              Some (None, rest, w\<lparr>accepted := accepted w @ concat (map fst pre),
                                    pending := drop (length pre) (pending w)\<rparr>)) \<and>
         (e \<noteq> EOF \<longrightarrow>
            copyFile file_Read dest_Write (pre @ (bs, Some e) # rest) w =
              Some (Some e, rest, w\<lparr>accepted := accepted w @ concat (map fst pre),
                                      pending := drop (length pre) (pending w)\<rparr>)) \<and>
         (good_read (bs, err) \<and> drop (length pre) (pending w) = Some (e, k) # later \<longrightarrow>
            copyFile file_Read dest_Write (pre @ (bs, err) # rest) w =
              Some (Some e, rest,
                    w\<lparr>accepted := accepted w @ concat (map fst pre) @ take k bs,
                      pending := later, broken := True\<rparr>))"
proof -
  let ?w1 = "w\<lparr>accepted := accepted w @ concat (map fst pre),
                pending := drop (length pre) (pending w)\<rparr>"
  have pre: "copyFile file_Read dest_Write (pre @ tl) w = copyFile file_Read dest_Write tl ?w1"
    for tl by (rule copyFile_prefix [OF assms])
  have "copyFile file_Read dest_Write [] ?w1 = Some (None, [], ?w1)"
    by (rule copyFile_end [where Read = file_Read, OF file_Read_Nil]) simp
  then have 1: "copyFile file_Read dest_Write pre w = Some (None, [], ?w1)"
    using pre [of "[]"] by simp
  have 2: "copyFile file_Read dest_Write (pre @ ([], err) # rest) w = Some (None, rest, ?w1)"
    if "err = None \<or> err = Some EOF"
  proof -
    have "file_Read (([], err) # rest) 1024 = (([], err), rest)" by (simp add: file_Read_Cons)
    from copyFile_end [where Read = file_Read, OF this that] show ?thesis
      unfolding pre .
  qed
  have 3: "copyFile file_Read dest_Write (pre @ (bs, Some e) # rest) w = Some (Some e, rest, ?w1)"
    if "e \<noteq> EOF"
    unfolding pre
    by (rule copyFile_read_error [where Read = file_Read, OF file_Read_Cons that])
  have 4: "copyFile file_Read dest_Write (pre @ (bs, err) # rest) w =
        Some (Some e, rest, w\<lparr>accepted := accepted w @ concat (map fst pre) @ take k bs,
                      pending := later, broken := True\<rparr>)"
    if g: "good_read (bs, err)" and p: "drop (length pre) (pending w) = Some (e, k) # later"
  proof -
    have rd: "file_Read ((bs, err) # rest) 1024 = ((bs, err), rest)"
      using g by (simp add: file_Read_Cons good_read_def)
    have "pending ?w1 = Some (e, k) # later" using p by simp
    from dest_Write_fails [OF this, of bs]
    have wr: "dest_Write ?w1 bs =
        (Some e, w\<lparr>accepted := accepted w @ concat (map fst pre) @ take k bs,
                      pending := later, broken := True\<rparr>)"
      by simp
    from g have "err = None \<or> err = Some EOF" "bs \<noteq> []" by (simp_all add: good_read_def)
    from copyFile_write_error [where Read = file_Read and Write = dest_Write, OF rd this wr]
    show ?thesis unfolding pre .
  qed
  from 1 2 3 4 show ?thesis by blast
qed

theorem copyFile_contract_witness:
  "copyFile file_Read dest_Write [([1, 2, 3], None), ([], Some EOF)]
     \<lparr>accepted = [], pending = [], broken = False\<rparr> =
   Some (None, [], \<lparr>accepted = [1, 2, 3], pending = [], broken = False\<rparr>) \<and>
   copyFile file_Read dest_Write [([1, 2, 3], None), ([4], Some (Err ''read''))]
     \<lparr>accepted = [], pending = [], broken = False\<rparr> =
   Some (Some (Err ''read''), [], \<lparr>accepted = [1, 2, 3], pending = [], broken = False\<rparr>) \<and>
   copyFile file_Read dest_Write [([1, 2, 3], None), ([4, 5], None)]
     \<lparr>accepted = [], pending = [None, Some (Err ''write'', 1)], broken = False\<rparr> =
   Some (Some (Err ''write''), [], \<lparr>accepted = [1, 2, 3, 4], pending = [], broken = True\<rparr>)"
proof -
  have a: "list_all good_read [([1, 2, 3], None)]" by (simp add: good_read_def)
  have g: "good_read ([4, 5], None)" by (simp add: good_read_def)
  from copyFile_contract [OF a, of "\<lparr>accepted = [], pending = [], broken = False\<rparr>"
      "Some EOF" "[]" "Err ''read''" "[4]"]
  have 1: "copyFile file_Read dest_Write [([1, 2, 3], None), ([], Some EOF)]
     \<lparr>accepted = [], pending = [], broken = False\<rparr> =
   Some (None, [], \<lparr>accepted = [1, 2, 3], pending = [], broken = False\<rparr>)"
    and 2: "copyFile file_Read dest_Write [([1, 2, 3], None), ([4], Some (Err ''read''))]
     \<lparr>accepted = [], pending = [], broken = False\<rparr> =
   Some (Some (Err ''read''), [], \<lparr>accepted = [1, 2, 3], pending = [], broken = False\<rparr>)"
    by simp_all
  from copyFile_contract [OF a,
      of "\<lparr>accepted = [], pending = [None, Some (Err ''write'', 1)], broken = False\<rparr>"
      None "[]" "Err ''write''" "[4, 5]" 1 "[]"] g
  have 3: "copyFile file_Read dest_Write [([1, 2, 3], None), ([4, 5], None)]
     \<lparr>accepted = [], pending = [None, Some (Err ''write'', 1)], broken = False\<rparr> =
   Some (Some (Err ''write''), [], \<lparr>accepted = [1, 2, 3, 4], pending = [], broken = True\<rparr>)"
    by simp
  from 1 2 3 show ?thesis by blast
qed

text \<open>
  The error that \<^verbatim>\<open>copyFile\<close> returns does not tell which operation failed: a read
  that fails and a write that fails with the same error give the same return value.
\<close>

theorem copyFile_error_untagged:
  "copyFile file_Read dest_Write [([], Some (Err ''failed''))]
     \<lparr>accepted = [], pending = [], broken = False\<rparr> =
   Some (Some (Err ''failed''), [], \<lparr>accepted = [], pending = [], broken = False\<rparr>) \<and>
   copyFile file_Read dest_Write [([1], None)]
     \<lparr>accepted = [], pending = [Some (Err ''failed'', 0)], broken = False\<rparr> =
   Some (Some (Err ''failed''), [], \<lparr>accepted = [], pending = [], broken = True\<rparr>) \<and>
   map_option fst (copyFile file_Read dest_Write [([], Some (Err ''failed''))]
     \<lparr>accepted = [], pending = [], broken = False\<rparr>) =
   map_option fst (copyFile file_Read dest_Write [([1], None)]
     \<lparr>accepted = [], pending = [Some (Err ''failed'', 0)], broken = False\<rparr>)"
proof -
  have 1: "copyFile file_Read dest_Write [([], Some (Err ''failed''))]
     \<lparr>accepted = [], pending = [], broken = False\<rparr> =
   Some (Some (Err ''failed''), [], \<lparr>accepted = [], pending = [], broken = False\<rparr>)"
    by (rule copyFile_read_error [where Read = file_Read, OF file_Read_Cons]) simp
  have rd: "file_Read [([1], None)] 1024 = (([1], None), [])" by (simp add: file_Read_Cons)
  have wr: "dest_Write \<lparr>accepted = [], pending = [Some (Err ''failed'', 0)], broken = False\<rparr> [1] =
      (Some (Err ''failed''), \<lparr>accepted = [], pending = [], broken = True\<rparr>)"
    by (simp add: dest_Write_def)
  have 2: "copyFile file_Read dest_Write [([1], None)]
     \<lparr>accepted = [], pending = [Some (Err ''failed'', 0)], broken = False\<rparr> =
   Some (Some (Err ''failed''), [], \<lparr>accepted = [], pending = [], broken = True\<rparr>)"
    by (rule copyFile_write_error [where Read = file_Read and Write = dest_Write, OF rd _ _ wr])
       simp_all
  show ?thesis unfolding 1 2 by simp
qed

lemma dest_Write_broken:
  "dest_Write w bs = (None, w') \<Longrightarrow> broken w' = broken w"
  by (auto simp: dest_Write_def split: list.splits option.splits prod.splits)

lemma copyFile_success_unbroken:
  "copyFile file_Read dest_Write rs w = Some (None, rs', w') \<Longrightarrow> broken w' = broken w"
proof (induction rs arbitrary: w)
  case Nil
  from Nil.prems have "w' = w"
    by (subst (asm) copyFile.simps) (simp add: file_Read_Nil)
  then show ?case by simp
next
  case (Cons r rs)
  obtain bs err where r: "r = (bs, err)" by (cases r)
  obtain werr w1 where wr: "dest_Write w (take 1024 bs) = (werr, w1)"
    by (cases "dest_Write w (take 1024 bs)")
  show ?case
  proof (cases "take 1024 bs = []")
    case True
    from Cons.prems have "w' = w"
      by (subst (asm) copyFile.simps) (simp add: file_Read_Cons r True split: if_splits)
    then show ?thesis by simp
  next
    case False
    then have ne: "min (length bs) 1024 \<noteq> 0" by auto
    from Cons.prems have "werr = None \<and> copyFile file_Read dest_Write rs w1 = Some (None, rs', w')"
      by (subst (asm) copyFile.simps) (simp add: file_Read_Cons r wr ne split: if_splits)
    then have "broken w' = broken w1" and "werr = None"
      using Cons.IH [of w1] by simp_all
    then show ?thesis using dest_Write_broken [of w "take 1024 bs" w1] wr by simp
  qed
qed

section \<open>Properties of the per-server synchronizer\<close>

lemma HasSuffix_iff: "HasSuffix s suffix \<longleftrightarrow> (\<exists>stem. s = stem @ suffix)"
proof
  assume "HasSuffix s suffix"
  then have "s = take (length s - length suffix) s @ suffix"
    by (metis HasSuffix_def append_take_drop_id)
  then show "\<exists>stem. s = stem @ suffix" ..
next
  assume "\<exists>stem. s = stem @ suffix"
  then show "HasSuffix s suffix" by (auto simp: HasSuffix_def)
qed

lemma transfer_open_failed:
  "d_open f = Inl err \<Longrightarrow>
   transfer W g server src dst f targetName fMod fs =
     Some ([Open (src @ ''/'' @ d_name f), Error_open_source server (d_name f) err], fs)"
  by (simp add: transfer_def Let_def)

lemma transfer_create_failed:
  "d_open f = Inr s \<Longrightarrow> d_create f = Some err \<Longrightarrow>
   transfer W g server src dst f targetName fMod fs =
     Some ([Open (src @ ''/'' @ d_name f), Create (dst @ ''/'' @ server @ ''/'' @ targetName)] @
           (if compress g then [NewWriter (dst @ ''/'' @ server @ ''/'' @ targetName)] else []) @
           [Error_open_destination server targetName err, Close Source (src @ ''/'' @ d_name f)],
           fs)"
  by (simp add: transfer_def Let_def)

lemma transfer_copy_failed:
  "d_open f = Inr s \<Longrightarrow> d_create f = None \<Longrightarrow>
   copyFile file_Read dest_Write s \<lparr>accepted = [], pending = d_writes f, broken = False\<rparr> =
     Some (Some err, s', d') \<Longrightarrow>
   transfer W g server src dst f targetName fMod fs =
     Some ([Open (src @ ''/'' @ d_name f), Create (dst @ ''/'' @ server @ ''/'' @ targetName)] @
           (if compress g then [NewWriter (dst @ ''/'' @ server @ ''/'' @ targetName)] else []) @
           [Error_copy server targetName err, Close Source (src @ ''/'' @ d_name f)] @
           (if compress g
            then [Close Compressor (dst @ ''/'' @ server @ ''/'' @ targetName),
                  Close Destination (dst @ ''/'' @ server @ ''/'' @ targetName)]
            else [Close Destination (dst @ ''/'' @ server @ ''/'' @ targetName)]),
           fs(dst @ ''/'' @ server @ ''/'' @ targetName \<mapsto>
              \<lparr>content = (if compress g then (if broken d' then [] else w_gzip W (accepted d'))
                           else accepted d'),
               mtime = w_now W\<rparr>))"
  by (simp add: transfer_def Let_def)

lemma transfer_copied:
  "d_open f = Inr s \<Longrightarrow> d_create f = None \<Longrightarrow>
   copyFile file_Read dest_Write s \<lparr>accepted = [], pending = d_writes f, broken = False\<rparr> =
     Some (None, s', d') \<Longrightarrow>
   transfer W g server src dst f targetName fMod fs =
     Some ([Open (src @ ''/'' @ d_name f), Create (dst @ ''/'' @ server @ ''/'' @ targetName)] @
           (if compress g then [NewWriter (dst @ ''/'' @ server @ ''/'' @ targetName)] else []) @
           [Close Source (src @ ''/'' @ d_name f)] @
           (if compress g
            then [Close Compressor (dst @ ''/'' @ server @ ''/'' @ targetName),
                  Close Destination (dst @ ''/'' @ server @ ''/'' @ targetName)]
            else [Close Destination (dst @ ''/'' @ server @ ''/'' @ targetName)]) @
           [Chtimes (dst @ ''/'' @ server @ ''/'' @ targetName) (w_now W) fMod] @
           (case d_chtimes f of
              Some err \<Rightarrow> [Error_chtimes server targetName err]
            | None \<Rightarrow> []),
           fs(dst @ ''/'' @ server @ ''/'' @ targetName \<mapsto>
              \<lparr>content = (if compress g then w_gzip W (accepted d') else accepted d'),
               mtime = (case d_chtimes f of Some err \<Rightarrow> w_now W | None \<Rightarrow> fMod)\<rparr>))"
proof -
  assume a: "d_open f = Inr s" "d_create f = None"
    and c: "copyFile file_Read dest_Write s \<lparr>accepted = [], pending = d_writes f, broken = False\<rparr> =
     Some (None, s', d')"
  from copyFile_success_unbroken [OF c] have "\<not> broken d'" by simp
  then show ?thesis using a c
    by (simp add: transfer_def Let_def split: option.splits)
qed

lemma transfer_returns: "transfer W g server src dst f targetName fMod fs \<noteq> None"
  using copyFile_returns [of "projr (d_open f)" "\<lparr>accepted = [], pending = d_writes f, broken = False\<rparr>"]
  by (auto simp: transfer_def Let_def split: sum.splits option.splits prod.splits)

lemma transfer_opens:
  "transfer W g server src dst f targetName fMod fs = Some (evs, fs') \<Longrightarrow>
   Open (src @ ''/'' @ d_name f) \<in> set evs"
  by (auto simp: transfer_def Let_def split: sum.splits option.splits prod.splits)

lemma CopyFiles_entry_returns: "CopyFiles_entry W g server src dst f fs \<noteq> None"
  using transfer_returns
  by (auto simp: CopyFiles_entry_def Let_def split: sum.splits)

lemma CopyFiles_entry_selected:
  "\<not> d_isdir f \<Longrightarrow> d_info f = Inr finfo \<Longrightarrow> startTime g < fi_modtime finfo \<Longrightarrow>
   fi_creation finfo < endTime g \<Longrightarrow> HasSuffix (fi_name finfo) ''.tmp'' \<Longrightarrow>
   CopyFiles_entry W g server src dst f fs =
     transfer W g server src dst f (fi_name finfo @ (if compress g then ''.gz'' else []))
       (fi_modtime finfo) fs"
  by (simp add: CopyFiles_entry_def Let_def After_def Before_def Unix_def)

lemma sample_entry_selected:
  "CopyFiles_entry sample_world (sample_globals c) server src dst sample_entry fs =
     transfer sample_world (sample_globals c) server src dst sample_entry
       (''app.tmp'' @ (if c then ''.gz'' else [])) 1704069000000000000 fs"
proof -
  have "CopyFiles_entry sample_world (sample_globals c) server src dst sample_entry fs =
     transfer sample_world (sample_globals c) server src dst sample_entry
       (fi_name sample_info @ (if compress (sample_globals c) then ''.gz'' else []))
       (fi_modtime sample_info) fs"
    by (rule CopyFiles_entry_selected)
       (simp_all add: sample_entry_def sample_info_def sample_globals_def HasSuffix_def)
  then show ?thesis by (simp add: sample_info_def sample_globals_def)
qed

lemma sample_entry_copied:
  "copyFile file_Read dest_Write [([1, 2, 3], None)]
     \<lparr>accepted = [], pending = d_writes sample_entry, broken = False\<rparr> =
   Some (None, [], \<lparr>accepted = [1, 2, 3], pending = [], broken = False\<rparr>)"
  using copyFile_sample by (simp add: sample_entry_def)

lemma sample_transfer:
  "transfer sample_world (sample_globals c) ''srv1'' ''//host1/logs'' ''/data'' sample_entry
     (''app.tmp'' @ (if c then ''.gz'' else [])) 1704069000000000000 fs =
   Some ([Open ''//host1/logs/app.tmp'',
          Create (''/data/srv1/app.tmp'' @ (if c then ''.gz'' else []))] @
         (if c then [NewWriter ''/data/srv1/app.tmp.gz''] else []) @
         [Close Source ''//host1/logs/app.tmp''] @
         (if c then [Close Compressor ''/data/srv1/app.tmp.gz'',
                     Close Destination ''/data/srv1/app.tmp.gz'']
          else [Close Destination ''/data/srv1/app.tmp'']) @
         [Chtimes (''/data/srv1/app.tmp'' @ (if c then ''.gz'' else []))
            1704074400000000000 1704069000000000000],
         fs(''/data/srv1/app.tmp'' @ (if c then ''.gz'' else []) \<mapsto>
            \<lparr>content = (if c then [0x1F, 0x8B, 1, 2, 3] else [1, 2, 3]),
             mtime = 1704069000000000000\<rparr>))"
proof -
  have o: "d_open sample_entry = Inr [([1, 2, 3], None)]" and cr: "d_create sample_entry = None"
    by (simp_all add: sample_entry_def)
  from transfer_copied [OF o cr sample_entry_copied, of sample_world "sample_globals c"
      "''srv1''" "''//host1/logs''" "''/data''" "''app.tmp'' @ (if c then ''.gz'' else [])"
      1704069000000000000 fs]
  show ?thesis
    by (simp add: sample_entry_def sample_globals_def sample_world_def sample_gzip_def)
qed

lemma CopyFiles_loop_returns: "CopyFiles_loop W g server src dst sdir fs \<noteq> None"
proof (induction sdir arbitrary: fs)
  case Nil
  show ?case by simp
next
  case (Cons f sdir)
  obtain evs fs' where "CopyFiles_entry W g server src dst f fs = Some (evs, fs')"
    using CopyFiles_entry_returns [of W g server src dst f fs] by auto
  then show ?case using Cons.IH [of fs'] by auto
qed

lemma CopyFiles_scan_returns:
  "\<exists>evs fs'. CopyFiles_scan W g server src dst fs = Some (Returned, evs, fs')"
proof (cases "w_readdir W")
  case (Inl err)
  then show ?thesis by (simp add: CopyFiles_scan_def)
next
  case (Inr sdir)
  obtain evs fs' where "CopyFiles_loop W g server src dst sdir fs = Some (evs, fs')"
    using CopyFiles_loop_returns [of W g server src dst sdir fs] by auto
  then show ?thesis by (simp add: CopyFiles_scan_def Inr)
qed

lemma CopyFiles_scan_unlisted:
  "w_readdir W = Inl err \<Longrightarrow>
   CopyFiles_scan W g server src dst fs =
     Some (Returned, [ReadDir src, Error_unable_to_open server src err], fs)"
  by (simp add: CopyFiles_scan_def)

text \<open>
  Claim C1. The loop body of the synchronizer selects an entry for transfer, that is,
  opens its source file, if and only if the entry is not a directory, its file
  information can be read, its name ends with \<^verbatim>\<open>.tmp\<close>, its modification time is
  strictly after the start of the window and its creation time strictly before the end
  of the window. For a directory the body does nothing at all. The body always returns.
\<close>

theorem file_selector:
  "\<exists>evs fs'. CopyFiles_entry W g server src dst f fs = Some (evs, fs') \<and>
     (Open (src @ ''/'' @ d_name f) \<in> set evs \<longleftrightarrow>
        \<not> d_isdir f \<and>
        (\<exists>finfo. d_info f = Inr finfo \<and> (\<exists>stem. fi_name finfo = stem @ ''.tmp'') \<and>
           startTime g < fi_modtime finfo \<and> fi_creation finfo < endTime g)) \<and>
     (d_isdir f \<longrightarrow> evs = [] \<and> fs' = fs)"
proof -
  obtain evs fs' where e: "CopyFiles_entry W g server src dst f fs = Some (evs, fs')"
    using CopyFiles_entry_returns [of W g server src dst f fs] by auto
  have "Open (src @ ''/'' @ d_name f) \<in> set evs \<longleftrightarrow>
        \<not> d_isdir f \<and>
        (\<exists>finfo. d_info f = Inr finfo \<and> (\<exists>stem. fi_name finfo = stem @ ''.tmp'') \<and>
           startTime g < fi_modtime finfo \<and> fi_creation finfo < endTime g)"
    using e transfer_opens [of W g server src dst f _ _ fs evs fs']
    by (auto simp: CopyFiles_entry_def Let_def After_def Before_def Unix_def HasSuffix_iff
             split: sum.splits if_splits)
  moreover have "d_isdir f \<longrightarrow> evs = [] \<and> fs' = fs"
    using e by (auto simp: CopyFiles_entry_def)
  ultimately show ?thesis using e by blast
qed


theorem file_selector_witness:
  "\<exists>evs fs'. CopyFiles_entry sample_world (sample_globals False) ''srv1'' ''//host1/logs''
        ''/data'' sample_entry Map.empty = Some (evs, fs') \<and>
     Open ''//host1/logs/app.tmp'' \<in> set evs"
proof -
  have sel: "\<not> d_isdir sample_entry \<and>
    (\<exists>finfo. d_info sample_entry = Inr finfo \<and> (\<exists>stem. fi_name finfo = stem @ ''.tmp'') \<and>
       startTime (sample_globals False) < fi_modtime finfo \<and>
       fi_creation finfo < endTime (sample_globals False))"
    by (intro conjI exI [of _ sample_info] exI [of _ "''app''"])
       (simp_all add: sample_entry_def sample_info_def sample_globals_def)
  have nm: "''//host1/logs'' @ ''/'' @ d_name sample_entry = ''//host1/logs/app.tmp''"
    by (simp add: sample_entry_def)
  from file_selector [of sample_world "sample_globals False" "''srv1''" "''//host1/logs''"
        "''/data''" sample_entry Map.empty] sel
  show ?thesis unfolding nm by blast
qed

text \<open>
  Claim C3. When \<^verbatim>\<open>copyFile\<close> returns no error, the bytes that the destination has
  taken are the bytes of the source, in order, whatever the sizes of the reads. In a
  transfer the file at the destination path then holds exactly these bytes, or, when
  compression is on, the gzip stream of exactly these bytes, so that any decoder
  \<open>gunzip\<close> that inverts the encoder gives the bytes of the source back.
\<close>

theorem copy_roundtrip:
  assumes "\<forall>r\<in>set rs. length (fst r) \<le> 1024"
    and "copyFile file_Read dest_Write rs w = Some (None, rs', w')"
  shows "accepted w' = accepted w @ delivered rs \<and>
    (d_open f = Inr rs \<and> d_create f = None \<and> w = \<lparr>accepted = [], pending = d_writes f, broken = False\<rparr>
       \<longrightarrow> (\<exists>evs fs' df.
              transfer W g server src dst f targetName fMod fs = Some (evs, fs') \<and>
              fs' (dst @ ''/'' @ server @ ''/'' @ targetName) = Some df \<and>
              (\<not> compress g \<longrightarrow> content df = delivered rs) \<and>
              (compress g \<longrightarrow> content df = w_gzip W (delivered rs)) \<and>
              (compress g \<and> (\<forall>bs. gunzip (w_gzip W bs) = Some bs)
                 \<longrightarrow> gunzip (content df) = Some (delivered rs))))"
proof -
  have acc: "accepted w' = accepted w @ delivered rs"
    by (rule copyFile_success_accepted [OF assms])
  moreover have "\<exists>evs fs' df.
              transfer W g server src dst f targetName fMod fs = Some (evs, fs') \<and>
              fs' (dst @ ''/'' @ server @ ''/'' @ targetName) = Some df \<and>
              (\<not> compress g \<longrightarrow> content df = delivered rs) \<and>
              (compress g \<longrightarrow> content df = w_gzip W (delivered rs)) \<and>
              (compress g \<and> (\<forall>bs. gunzip (w_gzip W bs) = Some bs)
                 \<longrightarrow> gunzip (content df) = Some (delivered rs))"
    if o: "d_open f = Inr rs" and c: "d_create f = None"
      and w: "w = \<lparr>accepted = [], pending = d_writes f, broken = False\<rparr>"
  proof -
    from acc w have a: "accepted w' = delivered rs" by simp
    from transfer_copied [OF o c assms(2) [unfolded w], of W g server src dst targetName fMod fs]
    show ?thesis by (simp add: a)
  qed
  ultimately show ?thesis by blast
qed


theorem copy_roundtrip_witness:
  "\<exists>evs fs' df.
     transfer sample_world (sample_globals True) ''srv1'' ''//host1/logs'' ''/data'' sample_entry
       ''app.tmp.gz'' 1704069000000000000 Map.empty = Some (evs, fs') \<and>
     fs' ''/data/srv1/app.tmp.gz'' = Some df \<and>
     content df = [0x1F, 0x8B, 1, 2, 3] \<and>
     sample_gunzip (content df) = Some [1, 2, 3]"
proof -
  have wf: "\<forall>r\<in>set [([1, 2, 3], None)]. length (fst r :: byte list) \<le> 1024" by simp
  have o: "d_open sample_entry = Inr [([1, 2, 3], None)] \<and> d_create sample_entry = None \<and>
      \<lparr>accepted = [], pending = [], broken = False\<rparr> =
      \<lparr>accepted = [], pending = d_writes sample_entry, broken = False\<rparr>"
    by (simp add: sample_entry_def)
  have c: "compress (sample_globals True) \<and>
      (\<forall>bs. sample_gunzip (w_gzip sample_world bs) = Some bs)"
    by (simp add: sample_globals_def sample_world_def sample_gzip_def sample_gunzip_def)
  have d: "delivered [([1, 2, 3], None)] = [1, 2, 3]" by (simp add: delivered_def)
  have z: "w_gzip sample_world [1, 2, 3] = [0x1F, 0x8B, 1, 2, 3]"
    by (simp add: sample_world_def sample_gzip_def)
  have p: "''/data'' @ ''/'' @ ''srv1'' @ ''/'' @ ''app.tmp.gz'' = ''/data/srv1/app.tmp.gz''"
    by simp
  from copy_roundtrip [OF wf copyFile_sample, where f = sample_entry and W = sample_world
      and g = "sample_globals True" and gunzip = sample_gunzip and server = "''srv1''"
      and src = "''//host1/logs''" and dst = "''/data''" and targetName = "''app.tmp.gz''"
      and fMod = 1704069000000000000 and fs = Map.empty] o c
  show ?thesis unfolding d z p by blast
qed


text \<open>
  Claim C4, as amended. Once the source of a qualifying entry is open, the body closes
  the streams in this order, after a copy that succeeded and after a copy that failed
  alike: the source file first, then the gzip writer (which flushes it) when
  compression is on, then the destination file. When the destination cannot be
  created only the source is closed.
\<close>

theorem close_order:
  assumes "d_open f = Inr s"
  shows "\<exists>evs fs'. transfer W g server src dst f targetName fMod fs = Some (evs, fs') \<and>
     filter is_Close evs =
       (case d_create f of
          Some err \<Rightarrow> [Close Source (src @ ''/'' @ d_name f)]
        | None \<Rightarrow>
            if compress g
            then [Close Source (src @ ''/'' @ d_name f),
                  Close Compressor (dst @ ''/'' @ server @ ''/'' @ targetName),
                  Close Destination (dst @ ''/'' @ server @ ''/'' @ targetName)]
            else [Close Source (src @ ''/'' @ d_name f),
                  Close Destination (dst @ ''/'' @ server @ ''/'' @ targetName)])"
proof (cases "d_create f")
  case (Some err)
  from transfer_create_failed [OF assms Some, of W g server src dst targetName fMod fs]
  show ?thesis by (simp add: Some)
next
  case None
  obtain cerr s' d' where c: "copyFile file_Read dest_Write s
      \<lparr>accepted = [], pending = d_writes f, broken = False\<rparr> = Some (cerr, s', d')"
    using copyFile_returns [of s "\<lparr>accepted = [], pending = d_writes f, broken = False\<rparr>"]
    by auto
  show ?thesis
  proof (cases cerr)
    case ok: None
    from transfer_copied [OF assms None c [unfolded ok], of W g server src dst targetName fMod fs]
    show ?thesis by (simp add: None split: option.splits)
  next
    case (Some err)
    from transfer_copy_failed [OF assms None c [unfolded Some], of W g server src dst targetName fMod fs]
    show ?thesis by (simp add: None)
  qed
qed

theorem close_order_witness:
  "\<exists>evs fs'. transfer sample_world (sample_globals True) ''srv1'' ''//host1/logs'' ''/data''
       sample_entry ''app.tmp.gz'' 1704069000000000000 Map.empty = Some (evs, fs') \<and>
     filter is_Close evs =
       [Close Source ''//host1/logs/app.tmp'', Close Compressor ''/data/srv1/app.tmp.gz'',
        Close Destination ''/data/srv1/app.tmp.gz'']"
proof -
  have o: "d_open sample_entry = Inr [([1, 2, 3], None)]" by (simp add: sample_entry_def)
  from close_order [OF o, of sample_world "sample_globals True" "''srv1''" "''//host1/logs''"
      "''/data''" "''app.tmp.gz''" 1704069000000000000 Map.empty]
  show ?thesis by (simp add: sample_entry_def sample_globals_def)
qed

text \<open>
  With compression on, the sample entry's streams are closed source first, then the
  gzip writer, then the destination file, which is not the order gzip writer,
  destination file, source.
\<close>

theorem close_order_counterexample:
  "map_option (filter is_Close \<circ> fst)
     (CopyFiles_entry sample_world (sample_globals True) ''srv1'' ''//host1/logs'' ''/data''
        sample_entry Map.empty) =
   Some [Close Source ''//host1/logs/app.tmp'', Close Compressor ''/data/srv1/app.tmp.gz'',
         Close Destination ''/data/srv1/app.tmp.gz''] \<and>
   map_option (filter is_Close \<circ> fst)
     (CopyFiles_entry sample_world (sample_globals True) ''srv1'' ''//host1/logs'' ''/data''
        sample_entry Map.empty) \<noteq>
   Some [Close Compressor ''/data/srv1/app.tmp.gz'', Close Destination ''/data/srv1/app.tmp.gz'',
         Close Source ''//host1/logs/app.tmp'']"
  unfolding sample_entry_selected using sample_transfer [of True Map.empty] by simp


text \<open>
  Claim C9. For an entry that qualifies and whose copy succeeds, the body calls
  \<^verbatim>\<open>os.Chtimes\<close> on the destination file with the modification time that
  \<^verbatim>\<open>f.Info()\<close> gave for the source before the copy, with compression on or off.
  When the call succeeds the destination file has that modification time; when it
  fails the failure is logged, and in both cases the loop goes on with the remaining
  entries.
\<close>

theorem mtime_preserved:
  assumes "\<not> d_isdir f" and "d_info f = Inr finfo"
    and "startTime g < fi_modtime finfo" and "fi_creation finfo < endTime g"
    and "HasSuffix (fi_name finfo) ''.tmp''"
    and "d_open f = Inr s" and "d_create f = None"
    and "copyFile file_Read dest_Write s
           \<lparr>accepted = [], pending = d_writes f, broken = False\<rparr> = Some (None, s', d')"
  shows "\<exists>evs fs'.
     CopyFiles_entry W g server src dst f fs = Some (evs, fs') \<and>
     Chtimes (dst @ ''/'' @ server @ ''/'' @ fi_name finfo @ (if compress g then ''.gz'' else []))
       (w_now W) (fi_modtime finfo) \<in> set evs \<and>
     (case d_chtimes f of
        None \<Rightarrow>
          (\<exists>df. fs' (dst @ ''/'' @ server @ ''/'' @ fi_name finfo @
                       (if compress g then ''.gz'' else [])) = Some df \<and>
                mtime df = fi_modtime finfo)
      | Some err \<Rightarrow>
          Error_chtimes server (fi_name finfo @ (if compress g then ''.gz'' else [])) err
            \<in> set evs) \<and>
     CopyFiles_loop W g server src dst (f # sdir) fs =
       (case CopyFiles_loop W g server src dst sdir fs' of
          None \<Rightarrow> None
        | Some (evs', fs'') \<Rightarrow> Some (evs @ evs', fs''))"
proof -
  have e: "CopyFiles_entry W g server src dst f fs =
      transfer W g server src dst f (fi_name finfo @ (if compress g then ''.gz'' else []))
        (fi_modtime finfo) fs"
    by (rule CopyFiles_entry_selected [OF assms(1-5)])
  from transfer_copied [OF assms(6-8), of W g server src dst
      "fi_name finfo @ (if compress g then ''.gz'' else [])" "fi_modtime finfo" fs]
  show ?thesis unfolding CopyFiles_loop.simps e
    by (cases "d_chtimes f") simp_all
qed


theorem mtime_preserved_witness:
  "\<exists>evs fs' df.
     CopyFiles_entry sample_world (sample_globals True) ''srv1'' ''//host1/logs'' ''/data''
       sample_entry Map.empty = Some (evs, fs') \<and>
     Chtimes ''/data/srv1/app.tmp.gz'' 1704074400000000000 1704069000000000000 \<in> set evs \<and>
     fs' ''/data/srv1/app.tmp.gz'' = Some df \<and> mtime df = 1704069000000000000"
proof -
  have h: "\<not> d_isdir sample_entry" "d_info sample_entry = Inr sample_info"
    "startTime (sample_globals True) < fi_modtime sample_info"
    "fi_creation sample_info < endTime (sample_globals True)"
    "HasSuffix (fi_name sample_info) ''.tmp''"
    "d_open sample_entry = Inr [([1, 2, 3], None)]" "d_create sample_entry = None"
    by (simp_all add: sample_entry_def sample_info_def sample_globals_def HasSuffix_def)
  have c: "d_chtimes sample_entry = None" by (simp add: sample_entry_def)
  have v: "fi_name sample_info @ (if compress (sample_globals True) then ''.gz'' else []) =
      ''app.tmp.gz''" "fi_modtime sample_info = 1704069000000000000"
    "w_now sample_world = 1704074400000000000"
    by (simp_all add: sample_info_def sample_globals_def sample_world_def)
  from mtime_preserved [OF h sample_entry_copied, where W = sample_world and server = "''srv1''"
      and src = "''//host1/logs''" and dst = "''/data''" and fs = Map.empty and sdir = "[]"]
  show ?thesis unfolding c v by auto
qed

text \<open>
  Claim C7. For an entry that qualifies: a failure to open the source is logged and
  nothing else happens for the entry; a failure to create the destination, or a
  failure of the copy, is logged and the modification time is not set; in every case
  the loop goes on with the remaining entries. A failure to list the source
  directory is logged and the call returns without opening any file. A failure to
  create the destination folder ends the process.
\<close>

theorem failure_isolation:
  assumes "\<not> d_isdir f" and "d_info f = Inr finfo"
    and "startTime g < fi_modtime finfo" and "fi_creation finfo < endTime g"
    and "HasSuffix (fi_name finfo) ''.tmp''"
  shows
    "(\<exists>evs fs'. CopyFiles_entry W g server src dst f fs = Some (evs, fs') \<and>
        CopyFiles_loop W g server src dst (f # sdir) fs =
          (case CopyFiles_loop W g server src dst sdir fs' of
             None \<Rightarrow> None
           | Some (evs', fs'') \<Rightarrow> Some (evs @ evs', fs'')) \<and>
        (\<forall>err. d_open f = Inl err \<longrightarrow>
           evs = [Open (src @ ''/'' @ d_name f), Error_open_source server (d_name f) err] \<and>
           fs' = fs) \<and>
        (\<forall>s err. d_open f = Inr s \<and> d_create f = Some err \<longrightarrow>
           Error_open_destination server
             (fi_name finfo @ (if compress g then ''.gz'' else [])) err \<in> set evs \<and>
           (\<forall>p a m. Chtimes p a m \<notin> set evs) \<and> fs' = fs) \<and>
        (\<forall>s err s' d'. d_open f = Inr s \<and> d_create f = None \<and>
           copyFile file_Read dest_Write s
             \<lparr>accepted = [], pending = d_writes f, broken = False\<rparr> = Some (Some err, s', d') \<longrightarrow>
           Error_copy server (fi_name finfo @ (if compress g then ''.gz'' else [])) err
             \<in> set evs \<and>
           (\<forall>p a m. Chtimes p a m \<notin> set evs))) \<and>
     (\<forall>err. w_readdir W = Inl err \<and>
        (w_stat W = None \<or> w_stat W = Some ErrNotExist \<and> w_mkdir W = None) \<longrightarrow>
        (\<exists>evs. CopyFiles W g server src dst fs = Some (Returned, evs, fs) \<and>
           last evs = Error_unable_to_open server src err \<and>
           (\<forall>p. Open p \<notin> set evs))) \<and>
     (\<forall>err. w_stat W = Some ErrNotExist \<and> w_mkdir W = Some err \<longrightarrow>
        (\<exists>evs. CopyFiles W g server src dst fs = Some (Exited, evs, fs) \<and>
           last evs = Fatal_creating_destination err))"
proof -
  let ?target = "fi_name finfo @ (if compress g then ''.gz'' else [])"
  have e: "CopyFiles_entry W g server src dst f fs =
      transfer W g server src dst f ?target (fi_modtime finfo) fs"
    by (rule CopyFiles_entry_selected [OF assms])
  obtain evs fs' where t: "transfer W g server src dst f ?target (fi_modtime finfo) fs =
      Some (evs, fs')"
    using transfer_returns [of W g server src dst f ?target "fi_modtime finfo" fs] by auto
  have 1: "evs = [Open (src @ ''/'' @ d_name f), Error_open_source server (d_name f) err] \<and>
      fs' = fs" if "d_open f = Inl err" for err
    using transfer_open_failed [OF that, of W g server src dst ?target "fi_modtime finfo" fs] t
    by simp
  have 2: "Error_open_destination server ?target err \<in> set evs \<and>
      (\<forall>p a m. Chtimes p a m \<notin> set evs) \<and> fs' = fs"
    if "d_open f = Inr s \<and> d_create f = Some err" for s err
    using transfer_create_failed [of f s err W g server src dst ?target "fi_modtime finfo" fs]
      that t
    by auto
  have 3: "Error_copy server ?target err \<in> set evs \<and> (\<forall>p a m. Chtimes p a m \<notin> set evs)"
    if "d_open f = Inr s \<and> d_create f = None \<and>
           copyFile file_Read dest_Write s
             \<lparr>accepted = [], pending = d_writes f, broken = False\<rparr> = Some (Some err, s', d')"
    for s err s' d'
    using transfer_copy_failed [of f s err s' d' W g server src dst ?target "fi_modtime finfo" fs]
      that t
    by auto
  have A: "\<exists>evs fs'. CopyFiles_entry W g server src dst f fs = Some (evs, fs') \<and>
        CopyFiles_loop W g server src dst (f # sdir) fs =
          (case CopyFiles_loop W g server src dst sdir fs' of
             None \<Rightarrow> None
           | Some (evs', fs'') \<Rightarrow> Some (evs @ evs', fs'')) \<and>
        (\<forall>err. d_open f = Inl err \<longrightarrow>
           evs = [Open (src @ ''/'' @ d_name f), Error_open_source server (d_name f) err] \<and>
           fs' = fs) \<and>
        (\<forall>s err. d_open f = Inr s \<and> d_create f = Some err \<longrightarrow>
           Error_open_destination server ?target err \<in> set evs \<and>
           (\<forall>p a m. Chtimes p a m \<notin> set evs) \<and> fs' = fs) \<and>
        (\<forall>s err s' d'. d_open f = Inr s \<and> d_create f = None \<and>
           copyFile file_Read dest_Write s
             \<lparr>accepted = [], pending = d_writes f, broken = False\<rparr> = Some (Some err, s', d') \<longrightarrow>
           Error_copy server ?target err \<in> set evs \<and>
           (\<forall>p a m. Chtimes p a m \<notin> set evs))"
  proof (intro exI conjI)
    show "CopyFiles_entry W g server src dst f fs = Some (evs, fs')" using e t by simp
    show "CopyFiles_loop W g server src dst (f # sdir) fs =
          (case CopyFiles_loop W g server src dst sdir fs' of
             None \<Rightarrow> None
           | Some (evs', fs'') \<Rightarrow> Some (evs @ evs', fs''))"
      using e t by simp
  qed (use 1 2 3 in blast)+
  have B: "\<exists>evs. CopyFiles W g server src dst fs = Some (Returned, evs, fs) \<and>
           last evs = Error_unable_to_open server src err \<and> (\<forall>p. Open p \<notin> set evs)"
    if "w_readdir W = Inl err \<and>
        (w_stat W = None \<or> w_stat W = Some ErrNotExist \<and> w_mkdir W = None)" for err
    using that CopyFiles_scan_unlisted [of W err g server src dst fs]
    by (auto simp: CopyFiles_def Let_def)
  have C: "\<exists>evs. CopyFiles W g server src dst fs = Some (Exited, evs, fs) \<and>
           last evs = Fatal_creating_destination err"
    if "w_stat W = Some ErrNotExist \<and> w_mkdir W = Some err" for err
    using that by (simp add: CopyFiles_def Let_def)
  from A B C show ?thesis by blast
qed



theorem failure_isolation_witness:
  "CopyFiles_entry sample_world (sample_globals False) ''srv1'' ''//host1/logs'' ''/data''
     (sample_entry\<lparr>d_open := Inl (Err ''locked'')\<rparr>) Map.empty =
     Some ([Open ''//host1/logs/app.tmp'', Error_open_source ''srv1'' ''app.tmp'' (Err ''locked'')],
           Map.empty) \<and>
   CopyFiles_loop sample_world (sample_globals False) ''srv1'' ''//host1/logs'' ''/data''
     [sample_entry\<lparr>d_open := Inl (Err ''locked'')\<rparr>] Map.empty =
     Some ([Open ''//host1/logs/app.tmp'', Error_open_source ''srv1'' ''app.tmp'' (Err ''locked'')],
           Map.empty) \<and>
   (\<exists>evs. CopyFiles (sample_world\<lparr>w_readdir := Inl (Err ''unreachable'')\<rparr>)
            (sample_globals False) ''srv1'' ''//host1/logs'' ''/data'' Map.empty =
            Some (Returned, evs, Map.empty) \<and>
          last evs = Error_unable_to_open ''srv1'' ''//host1/logs'' (Err ''unreachable'')) \<and>
   (\<exists>evs. CopyFiles (sample_world\<lparr>w_stat := Some ErrNotExist, w_mkdir := Some (Err ''denied'')\<rparr>)
            (sample_globals False) ''srv1'' ''//host1/logs'' ''/data'' Map.empty =
            Some (Exited, evs, Map.empty) \<and>
          last evs = Fatal_creating_destination (Err ''denied''))"
proof -
  let ?f = "sample_entry\<lparr>d_open := Inl (Err ''locked'')\<rparr>"
  let ?g = "sample_globals False"
  have h: "\<not> d_isdir ?f" "d_info ?f = Inr sample_info"
    "startTime ?g < fi_modtime sample_info" "fi_creation sample_info < endTime ?g"
    "HasSuffix (fi_name sample_info) ''.tmp''"
    by (simp_all add: sample_entry_def sample_info_def sample_globals_def HasSuffix_def)
  have o: "d_open ?f = Inl (Err ''locked'')" by simp
  have n: "''//host1/logs'' @ ''/'' @ d_name ?f = ''//host1/logs/app.tmp''" "d_name ?f = ''app.tmp''"
    by (simp_all add: sample_entry_def)
  have l: "CopyFiles_loop sample_world ?g ''srv1'' ''//host1/logs'' ''/data'' [] fs = Some ([], fs)"
    for fs by simp
  from failure_isolation [OF h, where W = sample_world and server = "''srv1''"
      and src = "''//host1/logs''" and dst = "''/data''" and fs = Map.empty and sdir = "[]"] o
  have 1: "CopyFiles_entry sample_world ?g ''srv1'' ''//host1/logs'' ''/data'' ?f Map.empty =
     Some ([Open ''//host1/logs/app.tmp'', Error_open_source ''srv1'' ''app.tmp'' (Err ''locked'')],
           Map.empty) \<and>
     CopyFiles_loop sample_world ?g ''srv1'' ''//host1/logs'' ''/data'' [?f] Map.empty =
     Some ([Open ''//host1/logs/app.tmp'', Error_open_source ''srv1'' ''app.tmp'' (Err ''locked'')],
           Map.empty)"
    unfolding n l by auto
  have r: "w_readdir (sample_world\<lparr>w_readdir := Inl (Err ''unreachable'')\<rparr>) =
      Inl (Err ''unreachable'') \<and>
      (w_stat (sample_world\<lparr>w_readdir := Inl (Err ''unreachable'')\<rparr>) = None \<or>
       w_stat (sample_world\<lparr>w_readdir := Inl (Err ''unreachable'')\<rparr>) = Some ErrNotExist \<and>
       w_mkdir (sample_world\<lparr>w_readdir := Inl (Err ''unreachable'')\<rparr>) = None)"
    by (simp add: sample_world_def)
  have 2: "\<exists>evs. CopyFiles (sample_world\<lparr>w_readdir := Inl (Err ''unreachable'')\<rparr>)
            ?g ''srv1'' ''//host1/logs'' ''/data'' Map.empty =
            Some (Returned, evs, Map.empty) \<and>
          last evs = Error_unable_to_open ''srv1'' ''//host1/logs'' (Err ''unreachable'')"
    using failure_isolation [OF h, where W = "sample_world\<lparr>w_readdir := Inl (Err ''unreachable'')\<rparr>"
      and server = "''srv1''" and src = "''//host1/logs''" and dst = "''/data''"
      and fs = Map.empty and sdir = "[]", THEN conjunct2, THEN conjunct1, rule_format, OF r]
    by auto
  have m: "w_stat (sample_world\<lparr>w_stat := Some ErrNotExist, w_mkdir := Some (Err ''denied'')\<rparr>) =
      Some ErrNotExist \<and>
      w_mkdir (sample_world\<lparr>w_stat := Some ErrNotExist, w_mkdir := Some (Err ''denied'')\<rparr>) =
      Some (Err ''denied'')"
    by simp
  have 3: "\<exists>evs. CopyFiles (sample_world\<lparr>w_stat := Some ErrNotExist, w_mkdir := Some (Err ''denied'')\<rparr>)
            ?g ''srv1'' ''//host1/logs'' ''/data'' Map.empty =
            Some (Exited, evs, Map.empty) \<and>
          last evs = Fatal_creating_destination (Err ''denied'')"
    using failure_isolation [OF h,
      where W = "sample_world\<lparr>w_stat := Some ErrNotExist, w_mkdir := Some (Err ''denied'')\<rparr>"
      and server = "''srv1''" and src = "''//host1/logs''" and dst = "''/data''"
      and fs = Map.empty and sdir = "[]", THEN conjunct2, THEN conjunct2, rule_format, OF m]
    by auto
  from 1 2 3 show ?thesis by blast
qed

lemma CopyFiles_entry_unreadable:
  "\<not> d_isdir f \<Longrightarrow> d_info f = Inl err \<Longrightarrow>
   CopyFiles_entry W g server src dst f fs = Some ([Error_file_info server (d_name f) err], fs)"
  by (simp add: CopyFiles_entry_def)

lemma CopyFiles_entry_logs:
  assumes q: "\<not> d_isdir f" "d_info f = Inr finfo" "startTime g < fi_modtime finfo"
      "fi_creation finfo < endTime g" "HasSuffix (fi_name finfo) ''.tmp''"
    and e: "CopyFiles_entry W g server src dst f fs = Some (evs, fs')"
  shows "(\<forall>err. d_open f = Inl err \<longrightarrow> Error_open_source server (d_name f) err \<in> set evs) \<and>
     (\<forall>s err. d_open f = Inr s \<and> d_create f = Some err \<longrightarrow>
        Error_open_destination server
          (fi_name finfo @ (if compress g then ''.gz'' else [])) err \<in> set evs) \<and>
     (\<forall>s err s' d'. d_open f = Inr s \<and> d_create f = None \<and>
        copyFile file_Read dest_Write s
          \<lparr>accepted = [], pending = d_writes f, broken = False\<rparr> = Some (Some err, s', d') \<longrightarrow>
        Error_copy server (fi_name finfo @ (if compress g then ''.gz'' else [])) err \<in> set evs) \<and>
     (\<forall>s err s' d'. d_open f = Inr s \<and> d_create f = None \<and>
        copyFile file_Read dest_Write s
          \<lparr>accepted = [], pending = d_writes f, broken = False\<rparr> = Some (None, s', d') \<and>
        d_chtimes f = Some err \<longrightarrow>
        Error_chtimes server (fi_name finfo @ (if compress g then ''.gz'' else [])) err \<in> set evs)"
proof -
  let ?target = "fi_name finfo @ (if compress g then ''.gz'' else [])"
  have t: "transfer W g server src dst f ?target (fi_modtime finfo) fs = Some (evs, fs')"
    using CopyFiles_entry_selected [OF q, of W server src dst fs] e by simp
  have 1: "Error_open_source server (d_name f) err \<in> set evs" if "d_open f = Inl err" for err
    using transfer_open_failed [OF that, of W g server src dst ?target "fi_modtime finfo" fs] t
    by auto
  have 2: "Error_open_destination server ?target err \<in> set evs"
    if "d_open f = Inr s \<and> d_create f = Some err" for s err
    using transfer_create_failed [of f s err W g server src dst ?target "fi_modtime finfo" fs]
      that t
    by auto
  have 3: "Error_copy server ?target err \<in> set evs"
    if "d_open f = Inr s \<and> d_create f = None \<and>
        copyFile file_Read dest_Write s
          \<lparr>accepted = [], pending = d_writes f, broken = False\<rparr> = Some (Some err, s', d')"
    for s err s' d'
    using transfer_copy_failed [of f s err s' d' W g server src dst ?target "fi_modtime finfo" fs]
      that t
    by auto
  have 4: "Error_chtimes server ?target err \<in> set evs"
    if "d_open f = Inr s \<and> d_create f = None \<and>
        copyFile file_Read dest_Write s
          \<lparr>accepted = [], pending = d_writes f, broken = False\<rparr> = Some (None, s', d') \<and>
        d_chtimes f = Some err"
    for s err s' d'
    using transfer_copied [of f s s' d' W g server src dst ?target "fi_modtime finfo" fs]
      that t
    by auto
  from 1 2 3 4 show ?thesis by blast
qed

lemma CopyFiles_loop_member:
  "CopyFiles_loop W g server src dst sdir fs = Some (evs, fs') \<Longrightarrow> f \<in> set sdir \<Longrightarrow>
   \<exists>fs0 evs0 fs1. CopyFiles_entry W g server src dst f fs0 = Some (evs0, fs1) \<and>
      set evs0 \<subseteq> set evs"
proof (induction sdir arbitrary: fs evs)
  case Nil
  then show ?case by simp
next
  case (Cons a sdir)
  from Cons.prems(1) obtain ea fa er where
    a: "CopyFiles_entry W g server src dst a fs = Some (ea, fa)"
    and r: "CopyFiles_loop W g server src dst sdir fa = Some (er, fs')"
    and ev: "evs = ea @ er"
    by (auto split: option.splits prod.splits)
  show ?case
  proof (cases "f = a")
    case True
    then show ?thesis using a ev by auto
  next
    case False
    then have "f \<in> set sdir" using Cons.prems(2) by simp
    from Cons.IH [OF r this] show ?thesis using ev by auto
  qed
qed

lemma CopyFiles_Returned_loop:
  assumes "CopyFiles W g server src dst fs = Some (Returned, evs, fs')"
    and "w_readdir W = Inr sdir"
  shows "\<exists>evs1. CopyFiles_loop W g server src dst sdir fs = Some (evs1, fs') \<and>
     set evs1 \<subseteq> set evs"
proof -
  obtain el fl where l: "CopyFiles_loop W g server src dst sdir fs = Some (el, fl)"
    using CopyFiles_loop_returns [of W g server src dst sdir fs] by auto
  then have s: "CopyFiles_scan W g server src dst fs =
      Some (Returned, [ReadDir src] @ el @ [Info_done server], fl)"
    using assms(2) by (simp add: CopyFiles_scan_def)
  from assms(1) s have "fl = fs' \<and> set el \<subseteq> set evs"
    by (auto simp: CopyFiles_def Let_def split: option.splits if_splits)
  with l show ?thesis by blast
qed

lemma CopyFiles_outcome:
  "\<exists>out evs fs'.
     CopyFiles W g server src dst fs = Some (out, evs, fs') \<and>
     (out = Exited \<longleftrightarrow>
        (\<exists>err. w_stat W = Some err \<and> (err = ErrNotExist \<longrightarrow> w_mkdir W \<noteq> None))) \<and>
     (out = Exited \<longrightarrow>
        fs' = fs \<and>
        (\<exists>err. last evs = Fatal_creating_destination err \<or>
               last evs = Fatal_opening_destination err)) \<and>
     (\<forall>err. w_stat W = Some err \<and> err \<noteq> ErrNotExist \<longrightarrow>
        last evs = Fatal_opening_destination err) \<and>
     (\<forall>err. w_stat W = Some ErrNotExist \<and> w_mkdir W = Some err \<longrightarrow>
        last evs = Fatal_creating_destination err) \<and>
     (\<forall>err. out = Returned \<and> w_readdir W = Inl err \<longrightarrow>
        last evs = Error_unable_to_open server src err)"
proof -
  obtain evs fs' where s: "CopyFiles_scan W g server src dst fs = Some (Returned, evs, fs')"
    using CopyFiles_scan_returns [of W g server src dst fs] by auto
  have u: "last evs = Error_unable_to_open server src err" if "w_readdir W = Inl err" for err
    using s CopyFiles_scan_unlisted [OF that, of g server src dst fs] by auto
  have ne: "evs \<noteq> []" using s by (auto simp: CopyFiles_scan_def split: sum.splits option.splits)
  show ?thesis
  proof (cases "w_stat W")
    case None
    then have "CopyFiles W g server src dst fs =
        Some (Returned, [Info_scanning src, Stat (dst @ ''/'' @ server)] @ evs, fs')"
      using s by (simp add: CopyFiles_def Let_def)
    then show ?thesis using None u ne by auto
  next
    case (Some err)
    show ?thesis
    proof (cases "err = ErrNotExist")
      case False
      then show ?thesis using Some by (simp add: CopyFiles_def Let_def)
    next
      case True
      show ?thesis
      proof (cases "w_mkdir W")
        case None
        then have "CopyFiles W g server src dst fs =
            Some (Returned, [Info_scanning src, Stat (dst @ ''/'' @ server),
                             MkdirAll (dst @ ''/'' @ server)] @ evs, fs')"
          using s Some True by (simp add: CopyFiles_def Let_def)
        then show ?thesis using None Some True u ne by auto
      next
        case (Some err')
        then show ?thesis using \<open>w_stat W = Some err\<close> True by (simp add: CopyFiles_def Let_def)
      qed
    qed
  qed
qed


text \<open>
  Claim C8, as amended. Every call of the synchronizer comes to an end, whatever the
  listing and the outcomes of its calls (each source being a file of finitely many
  reads). It returns to its caller, except when the destination folder cannot be
  examined, or does not exist and cannot be created: then, and only then, it logs a
  fatal message as its last action and ends the whole process, leaving the
  destination tree as it was. Every failure is reported through the log: the failure
  to examine or to create the destination folder, the failure to list the source, and,
  for each entry of the listing that the loop reaches, the failure to read its file
  information, to open its source, to create its destination, to copy, and to set the
  modification time.
\<close>

theorem synchronizer_terminates:
  "\<exists>out evs fs'.
     CopyFiles W g server src dst fs = Some (out, evs, fs') \<and>
     (out = Exited \<longleftrightarrow>
        (\<exists>err. w_stat W = Some err \<and> (err = ErrNotExist \<longrightarrow> w_mkdir W \<noteq> None))) \<and>
     (out = Exited \<longrightarrow>
        fs' = fs \<and>
        (\<exists>err. last evs = Fatal_creating_destination err \<or>
               last evs = Fatal_opening_destination err)) \<and>
     (\<forall>err. w_stat W = Some err \<and> err \<noteq> ErrNotExist \<longrightarrow>
        last evs = Fatal_opening_destination err) \<and>
     (\<forall>err. w_stat W = Some ErrNotExist \<and> w_mkdir W = Some err \<longrightarrow>
        last evs = Fatal_creating_destination err) \<and>
     (\<forall>err. out = Returned \<and> w_readdir W = Inl err \<longrightarrow>
        last evs = Error_unable_to_open server src err) \<and>
     (\<forall>sdir f. out = Returned \<and> w_readdir W = Inr sdir \<and> f \<in> set sdir \<and> \<not> d_isdir f \<longrightarrow>
        (\<forall>err. d_info f = Inl err \<longrightarrow> Error_file_info server (d_name f) err \<in> set evs) \<and>
        (\<forall>finfo. d_info f = Inr finfo \<and> startTime g < fi_modtime finfo \<and>
           fi_creation finfo < endTime g \<and> HasSuffix (fi_name finfo) ''.tmp'' \<longrightarrow>
           (\<forall>err. d_open f = Inl err \<longrightarrow>
              Error_open_source server (d_name f) err \<in> set evs) \<and>
           (\<forall>s err. d_open f = Inr s \<and> d_create f = Some err \<longrightarrow>
              Error_open_destination server
                (fi_name finfo @ (if compress g then ''.gz'' else [])) err \<in> set evs) \<and>
           (\<forall>s err s' d'. d_open f = Inr s \<and> d_create f = None \<and>
              copyFile file_Read dest_Write s
                \<lparr>accepted = [], pending = d_writes f, broken = False\<rparr> =
                Some (Some err, s', d') \<longrightarrow>
              Error_copy server (fi_name finfo @ (if compress g then ''.gz'' else [])) err
                \<in> set evs) \<and>
           (\<forall>s err s' d'. d_open f = Inr s \<and> d_create f = None \<and>
              copyFile file_Read dest_Write s
                \<lparr>accepted = [], pending = d_writes f, broken = False\<rparr> =
                Some (None, s', d') \<and>
              d_chtimes f = Some err \<longrightarrow>
              Error_chtimes server (fi_name finfo @ (if compress g then ''.gz'' else [])) err
                \<in> set evs)))"
proof -
  from CopyFiles_outcome [of W g server src dst fs]
  obtain out evs fs' where
    c: "CopyFiles W g server src dst fs = Some (out, evs, fs')"
    and o1: "out = Exited \<longleftrightarrow>
        (\<exists>err. w_stat W = Some err \<and> (err = ErrNotExist \<longrightarrow> w_mkdir W \<noteq> None))"
    and o2: "out = Exited \<longrightarrow>
        fs' = fs \<and>
        (\<exists>err. last evs = Fatal_creating_destination err \<or>
               last evs = Fatal_opening_destination err)"
    and o3: "\<forall>err. w_stat W = Some err \<and> err \<noteq> ErrNotExist \<longrightarrow>
        last evs = Fatal_opening_destination err"
    and o4: "\<forall>err. w_stat W = Some ErrNotExist \<and> w_mkdir W = Some err \<longrightarrow>
        last evs = Fatal_creating_destination err"
    and o5: "\<forall>err. out = Returned \<and> w_readdir W = Inl err \<longrightarrow>
        last evs = Error_unable_to_open server src err"
    by (elim exE conjE) (rule that, assumption+)
  have logs: "(\<forall>err. d_info f = Inl err \<longrightarrow> Error_file_info server (d_name f) err \<in> set evs) \<and>
        (\<forall>finfo. d_info f = Inr finfo \<and> startTime g < fi_modtime finfo \<and>
           fi_creation finfo < endTime g \<and> HasSuffix (fi_name finfo) ''.tmp'' \<longrightarrow>
           (\<forall>err. d_open f = Inl err \<longrightarrow>
              Error_open_source server (d_name f) err \<in> set evs) \<and>
           (\<forall>s err. d_open f = Inr s \<and> d_create f = Some err \<longrightarrow>
              Error_open_destination server
                (fi_name finfo @ (if compress g then ''.gz'' else [])) err \<in> set evs) \<and>
           (\<forall>s err s' d'. d_open f = Inr s \<and> d_create f = None \<and>
              copyFile file_Read dest_Write s
                \<lparr>accepted = [], pending = d_writes f, broken = False\<rparr> =
                Some (Some err, s', d') \<longrightarrow>
              Error_copy server (fi_name finfo @ (if compress g then ''.gz'' else [])) err
                \<in> set evs) \<and>
           (\<forall>s err s' d'. d_open f = Inr s \<and> d_create f = None \<and>
              copyFile file_Read dest_Write s
                \<lparr>accepted = [], pending = d_writes f, broken = False\<rparr> =
                Some (None, s', d') \<and>
              d_chtimes f = Some err \<longrightarrow>
              Error_chtimes server (fi_name finfo @ (if compress g then ''.gz'' else [])) err
                \<in> set evs))"
    if h: "out = Returned \<and> w_readdir W = Inr sdir \<and> f \<in> set sdir \<and> \<not> d_isdir f" for sdir f
  proof -
    from h c have c': "CopyFiles W g server src dst fs = Some (Returned, evs, fs')" by simp
    from CopyFiles_Returned_loop [OF c', of sdir] h
    obtain evs1 where l: "CopyFiles_loop W g server src dst sdir fs = Some (evs1, fs')"
      and sub1: "set evs1 \<subseteq> set evs" by blast
    from CopyFiles_loop_member [OF l, of f] h
    obtain fs0 evs0 fs1 where e: "CopyFiles_entry W g server src dst f fs0 = Some (evs0, fs1)"
      and sub0: "set evs0 \<subseteq> set evs1" by blast
    have nd: "\<not> d_isdir f" using h by simp
    have A: "Error_file_info server (d_name f) err \<in> set evs" if "d_info f = Inl err" for err
      using CopyFiles_entry_unreadable [OF nd that, of W g server src dst fs0] e sub0 sub1
      by auto
    have B: "(\<forall>err. d_open f = Inl err \<longrightarrow>
              Error_open_source server (d_name f) err \<in> set evs) \<and>
           (\<forall>s err. d_open f = Inr s \<and> d_create f = Some err \<longrightarrow>
              Error_open_destination server
                (fi_name finfo @ (if compress g then ''.gz'' else [])) err \<in> set evs) \<and>
           (\<forall>s err s' d'. d_open f = Inr s \<and> d_create f = None \<and>
              copyFile file_Read dest_Write s
                \<lparr>accepted = [], pending = d_writes f, broken = False\<rparr> =
                Some (Some err, s', d') \<longrightarrow>
              Error_copy server (fi_name finfo @ (if compress g then ''.gz'' else [])) err
                \<in> set evs) \<and>
           (\<forall>s err s' d'. d_open f = Inr s \<and> d_create f = None \<and>
              copyFile file_Read dest_Write s
                \<lparr>accepted = [], pending = d_writes f, broken = False\<rparr> =
                Some (None, s', d') \<and>
              d_chtimes f = Some err \<longrightarrow>
              Error_chtimes server (fi_name finfo @ (if compress g then ''.gz'' else [])) err
                \<in> set evs)"
      if q: "d_info f = Inr finfo \<and> startTime g < fi_modtime finfo \<and>
           fi_creation finfo < endTime g \<and> HasSuffix (fi_name finfo) ''.tmp''" for finfo
    proof -
      from q have q1: "d_info f = Inr finfo" and q2: "startTime g < fi_modtime finfo"
        and q3: "fi_creation finfo < endTime g" and q4: "HasSuffix (fi_name finfo) ''.tmp''"
        by simp_all
      from CopyFiles_entry_logs [OF nd q1 q2 q3 q4 e] sub0 sub1
      show ?thesis by blast
    qed
    from A B show ?thesis by blast
  qed
  have L: "\<forall>sdir f. out = Returned \<and> w_readdir W = Inr sdir \<and> f \<in> set sdir \<and> \<not> d_isdir f \<longrightarrow>
        (\<forall>err. d_info f = Inl err \<longrightarrow> Error_file_info server (d_name f) err \<in> set evs) \<and>
        (\<forall>finfo. d_info f = Inr finfo \<and> startTime g < fi_modtime finfo \<and>
           fi_creation finfo < endTime g \<and> HasSuffix (fi_name finfo) ''.tmp'' \<longrightarrow>
           (\<forall>err. d_open f = Inl err \<longrightarrow>
              Error_open_source server (d_name f) err \<in> set evs) \<and>
           (\<forall>s err. d_open f = Inr s \<and> d_create f = Some err \<longrightarrow>
              Error_open_destination server
                (fi_name finfo @ (if compress g then ''.gz'' else [])) err \<in> set evs) \<and>
           (\<forall>s err s' d'. d_open f = Inr s \<and> d_create f = None \<and>
              copyFile file_Read dest_Write s
                \<lparr>accepted = [], pending = d_writes f, broken = False\<rparr> =
                Some (Some err, s', d') \<longrightarrow>
              Error_copy server (fi_name finfo @ (if compress g then ''.gz'' else [])) err
                \<in> set evs) \<and>
           (\<forall>s err s' d'. d_open f = Inr s \<and> d_create f = None \<and>
              copyFile file_Read dest_Write s
                \<lparr>accepted = [], pending = d_writes f, broken = False\<rparr> =
                Some (None, s', d') \<and>
              d_chtimes f = Some err \<longrightarrow>
              Error_chtimes server (fi_name finfo @ (if compress g then ''.gz'' else [])) err
                \<in> set evs))"
    by (intro allI impI) (rule logs)
  show ?thesis
    by (intro exI conjI) (rule c o1 o2 o3 o4 o5 L)+
qed

theorem synchronizer_terminates_witness:
  "(\<exists>evs fs'. CopyFiles sample_world (sample_globals False) ''srv1'' ''//host1/logs'' ''/data''
      Map.empty = Some (Returned, evs, fs')) \<and>
   (\<exists>evs fs'. CopyFiles
      (sample_world\<lparr>w_readdir := Inr [sample_entry\<lparr>d_open := Inl (Err ''locked'')\<rparr>]\<rparr>)
      (sample_globals False) ''srv1'' ''//host1/logs'' ''/data'' Map.empty =
      Some (Returned, evs, fs') \<and>
      Error_open_source ''srv1'' ''app.tmp'' (Err ''locked'') \<in> set evs)"
proof -
  have n: "\<not> (\<exists>err. w_stat sample_world = Some err \<and>
      (err = ErrNotExist \<longrightarrow> w_mkdir sample_world \<noteq> None))"
    by (simp add: sample_world_def)
  from synchronizer_terminates [of sample_world "sample_globals False" "''srv1''"
      "''//host1/logs''" "''/data''" Map.empty]
  obtain out evs fs' where
    c: "CopyFiles sample_world (sample_globals False) ''srv1'' ''//host1/logs'' ''/data''
      Map.empty = Some (out, evs, fs')"
    and i: "out = Exited \<longleftrightarrow>
        (\<exists>err. w_stat sample_world = Some err \<and>
           (err = ErrNotExist \<longrightarrow> w_mkdir sample_world \<noteq> None))"
    by (elim exE conjE) (rule that, assumption+)
  from i n have "out \<noteq> Exited" by blast
  then have "out = Returned" by (cases out) simp_all
  with c have 1: "\<exists>evs fs'. CopyFiles sample_world (sample_globals False) ''srv1''
      ''//host1/logs'' ''/data'' Map.empty = Some (Returned, evs, fs')" by blast
  let ?f = "sample_entry\<lparr>d_open := Inl (Err ''locked'')\<rparr>"
  let ?W = "sample_world\<lparr>w_readdir := Inr [?f]\<rparr>"
  let ?g = "sample_globals False"
  have n': "\<not> (\<exists>err. w_stat ?W = Some err \<and> (err = ErrNotExist \<longrightarrow> w_mkdir ?W \<noteq> None))"
    by (simp add: sample_world_def)
  have h: "w_readdir ?W = Inr [?f] \<and> ?f \<in> set [?f] \<and> \<not> d_isdir ?f"
    by (simp add: sample_entry_def)
  have q: "d_info ?f = Inr sample_info \<and> startTime ?g < fi_modtime sample_info \<and>
      fi_creation sample_info < endTime ?g \<and> HasSuffix (fi_name sample_info) ''.tmp''"
    by (simp add: sample_entry_def sample_info_def sample_globals_def HasSuffix_def)
  have o: "d_open ?f = Inl (Err ''locked'')" and nm: "d_name ?f = ''app.tmp''"
    by (simp_all add: sample_entry_def)
  from synchronizer_terminates [of ?W ?g "''srv1''" "''//host1/logs''" "''/data''" Map.empty]
  obtain out2 evs2 fs2 where
    c2: "CopyFiles ?W ?g ''srv1'' ''//host1/logs'' ''/data'' Map.empty = Some (out2, evs2, fs2)"
    and i2: "out2 = Exited \<longleftrightarrow>
        (\<exists>err. w_stat ?W = Some err \<and> (err = ErrNotExist \<longrightarrow> w_mkdir ?W \<noteq> None))"
    and l2: "\<forall>sdir f. out2 = Returned \<and> w_readdir ?W = Inr sdir \<and> f \<in> set sdir \<and> \<not> d_isdir f \<longrightarrow>
        (\<forall>err. d_info f = Inl err \<longrightarrow> Error_file_info ''srv1'' (d_name f) err \<in> set evs2) \<and>
        (\<forall>finfo. d_info f = Inr finfo \<and> startTime ?g < fi_modtime finfo \<and>
           fi_creation finfo < endTime ?g \<and> HasSuffix (fi_name finfo) ''.tmp'' \<longrightarrow>
           (\<forall>err. d_open f = Inl err \<longrightarrow>
              Error_open_source ''srv1'' (d_name f) err \<in> set evs2) \<and>
           (\<forall>s err. d_open f = Inr s \<and> d_create f = Some err \<longrightarrow>
              Error_open_destination ''srv1''
                (fi_name finfo @ (if compress ?g then ''.gz'' else [])) err \<in> set evs2) \<and>
           (\<forall>s err s' d'. d_open f = Inr s \<and> d_create f = None \<and>
              copyFile file_Read dest_Write s
                \<lparr>accepted = [], pending = d_writes f, broken = False\<rparr> =
                Some (Some err, s', d') \<longrightarrow>
              Error_copy ''srv1'' (fi_name finfo @ (if compress ?g then ''.gz'' else [])) err
                \<in> set evs2) \<and>
           (\<forall>s err s' d'. d_open f = Inr s \<and> d_create f = None \<and>
              copyFile file_Read dest_Write s
                \<lparr>accepted = [], pending = d_writes f, broken = False\<rparr> =
                Some (None, s', d') \<and>
              d_chtimes f = Some err \<longrightarrow>
              Error_chtimes ''srv1'' (fi_name finfo @ (if compress ?g then ''.gz'' else [])) err
                \<in> set evs2))"
    by (elim exE conjE) (rule that, assumption+)
  from i2 n' have "out2 \<noteq> Exited" by blast
  then have r2: "out2 = Returned" by (cases out2) simp_all
  from l2 [rule_format, of "[?f]" ?f] r2 h
  have "\<forall>finfo. d_info ?f = Inr finfo \<and> startTime ?g < fi_modtime finfo \<and>
           fi_creation finfo < endTime ?g \<and> HasSuffix (fi_name finfo) ''.tmp'' \<longrightarrow>
           (\<forall>err. d_open ?f = Inl err \<longrightarrow>
              Error_open_source ''srv1'' (d_name ?f) err \<in> set evs2)"
    by blast
  from this [rule_format, OF q o]
  have "Error_open_source ''srv1'' ''app.tmp'' (Err ''locked'') \<in> set evs2"
    unfolding nm .
  with c2 r2 have 2: "\<exists>evs fs'. CopyFiles ?W ?g ''srv1'' ''//host1/logs'' ''/data'' Map.empty =
      Some (Returned, evs, fs') \<and>
      Error_open_source ''srv1'' ''app.tmp'' (Err ''locked'') \<in> set evs" by blast
  from 1 2 show ?thesis by blast
qed

text \<open>
  When the destination folder does not exist and cannot be created, the call does not
  return to its caller: \<^verbatim>\<open>log.Fatalf\<close> ends the process.
\<close>

theorem synchronizer_exits:
  "CopyFiles (sample_world\<lparr>w_stat := Some ErrNotExist, w_mkdir := Some (Err ''access denied'')\<rparr>)
     (sample_globals False) ''srv1'' ''//host1/logs'' ''/data'' Map.empty =
   Some (Exited,
         [Info_scanning ''//host1/logs'', Stat ''/data/srv1'', MkdirAll ''/data/srv1'',
          Fatal_creating_destination (Err ''access denied'')],
         Map.empty)"
  by (simp add: CopyFiles_def Let_def)

section \<open>Properties of the fan-out\<close>

lemma launch_before_logshare:
  "''logshare'' \<notin> fst ` set ks \<Longrightarrow>
   launch (ks @ rest) share d =
     map (\<lambda>(name, val). (name, ''//'' @ val @ ''/'' @ share, d)) ks @ launch rest share d"
  by (induction ks) auto

lemma launch_names:
  "map fst (launch ks share d) = filter (\<lambda>name. name \<noteq> ''logshare'') (map fst ks)"
  by (induction ks share d rule: launch.induct) auto

text \<open>
  Claim C10. The loop of \<^verbatim>\<open>main\<close> launches one synchronizer for each key other
  than \<^verbatim>\<open>logshare\<close>, in the order of the keys, and builds its source path from the
  value of the key and the share as it is at that moment: for the keys before the
  \<^verbatim>\<open>logshare\<close> key the share is still empty and the path ends with the slash, for
  the keys after it the path ends with the share. So the paths depend on the order
  of the keys. The host in the path is the value of the key; the name of the key is
  the server argument of the synchronizer.
\<close>

theorem launch_paths:
  assumes "''logshare'' \<notin> fst ` set before" and "''logshare'' \<notin> fst ` set after"
  shows "main_launches (before @ (''logshare'', v) # after) d =
           map (\<lambda>(name, val). (name, ''//'' @ val @ ''/'', d)) before @
           map (\<lambda>(name, val).
                  (name, ''//'' @ val @ ''/'' @ MustString v ''SPSS_DIMENSIONS_LOGS'', d)) after \<and>
         main_launches before d = map (\<lambda>(name, val). (name, ''//'' @ val @ ''/'', d)) before \<and>
         map fst (main_launches ks d) = filter (\<lambda>name. name \<noteq> ''logshare'') (map fst ks)"
proof -
  have a: "launch after share d =
      map (\<lambda>(name, val). (name, ''//'' @ val @ ''/'' @ share, d)) after" for share
    using launch_before_logshare [OF assms(2), of "[]" share d] by simp
  have b: "launch (before @ rest) [] d =
      map (\<lambda>(name, val). (name, ''//'' @ val @ ''/'', d)) before @ launch rest [] d" for rest
    using launch_before_logshare [OF assms(1), of rest "[]" d] by simp
  show ?thesis unfolding main_launches_def
    using b [of "(''logshare'', v) # after"] b [of "[]"] a launch_names [of ks "[]" d]
    by simp
qed

theorem launch_paths_witness:
  "main_launches [(''web1'', ''10.0.0.1''), (''logshare'', ''logs''), (''web2'', ''10.0.0.2'')]
     ''/data'' =
   [(''web1'', ''//10.0.0.1/'', ''/data''), (''web2'', ''//10.0.0.2/logs'', ''/data'')]"
proof -
  have h: "''logshare'' \<notin> fst ` set [(''web1'', ''10.0.0.1'')]"
    "''logshare'' \<notin> fst ` set [(''web2'', ''10.0.0.2'')]"
    by simp_all
  from launch_paths [OF h, of "''logs''" "''/data''" "[]"]
  show ?thesis by (simp add: MustString_def)
qed


section \<open>Properties of the retention pruner\<close>

















section \<open>Properties of the destination path\<close>

lemma digits_in: "set (digits n) \<subseteq> set ''0123456789''"
proof (induction n rule: digits.induct)
  case (1 n)
  show ?case
  proof (cases "n < 10")
    case True
    then have "''0123456789'' ! n \<in> set ''0123456789''" by (intro nth_mem) simp
    then show ?thesis using True by (subst digits.simps) simp
  next
    case False
    have "''0123456789'' ! (n mod 10) \<in> set ''0123456789''" by (intro nth_mem) simp
    then show ?thesis using False 1 by (subst digits.simps) simp
  qed
qed

lemma digits_length_1: "n < 10 \<Longrightarrow> length (digits n) = 1"
  by (subst digits.simps) simp

lemma digits_length_2: "10 \<le> n \<Longrightarrow> n < 100 \<Longrightarrow> length (digits n) = 2"
  by (subst digits.simps) (simp add: digits_length_1)

lemma digits_length_3: "100 \<le> n \<Longrightarrow> n < 1000 \<Longrightarrow> length (digits n) = 3"
  by (subst digits.simps) (simp add: digits_length_2)

lemma digits_length_4: "1000 \<le> n \<Longrightarrow> n < 10000 \<Longrightarrow> length (digits n) = 4"
  by (subst digits.simps) (simp add: digits_length_3)

lemma appendInt_digits: "0 \<le> x \<Longrightarrow> set (appendInt x w) \<subseteq> set ''0123456789''"
  using digits_in [of "nat \<bar>x\<bar>"] by (auto simp: appendInt_def Let_def)

lemma appendInt_2: "0 \<le> x \<Longrightarrow> x < 100 \<Longrightarrow> length (appendInt x 2) = 2"
  using digits_length_1 [of "nat \<bar>x\<bar>"] digits_length_2 [of "nat \<bar>x\<bar>"]
  by (cases "x < 10") (auto simp: appendInt_def Let_def)

lemma appendInt_4: "0 \<le> x \<Longrightarrow> x < 10000 \<Longrightarrow> length (appendInt x 4) = 4"
proof -
  assume a: "0 \<le> x" "x < 10000"
  consider "x < 10" | "10 \<le> x \<and> x < 100" | "100 \<le> x \<and> x < 1000" | "1000 \<le> x" by linarith
  then have "length (digits (nat \<bar>x\<bar>)) \<le> 4"
    using a digits_length_1 [of "nat \<bar>x\<bar>"] digits_length_2 [of "nat \<bar>x\<bar>"]
      digits_length_3 [of "nat \<bar>x\<bar>"] digits_length_4 [of "nat \<bar>x\<bar>"]
    by cases auto
  then show ?thesis using a by (simp add: appendInt_def Let_def)
qed


lemma day_of_year_range:
  "0 \<le> (doq::int) \<Longrightarrow> doq \<le> 1460 \<Longrightarrow>
   0 \<le> doq - 365 * min 3 (doq div 365) \<and> doq - 365 * min 3 (doq div 365) \<le> 365"
  by (cases "doq div 365 \<le> 3") (simp_all add: min_def, arith+)

lemma month_index_range:
  "0 \<le> (doy::int) \<Longrightarrow> doy \<le> 365 \<Longrightarrow>
   0 \<le> (5 * doy + 2) div 153 \<and> (5 * doy + 2) div 153 \<le> 11"
  by arith

lemma day_of_month_range:
  "0 \<le> (doy::int) \<Longrightarrow> doy \<le> 365 \<Longrightarrow>
   1 \<le> doy - (153 * ((5 * doy + 2) div 153) + 2) div 5 + 1 \<and>
   doy - (153 * ((5 * doy + 2) div 153) + 2) div 5 + 1 \<le> 31"
  by arith

lemma civil_range:
  assumes "civil days = (y, m, d)"
  shows "1 \<le> m \<and> m \<le> 12 \<and> 1 \<le> d \<and> d \<le> 31"
proof -
  define doe where "doe = (days + 719468) mod 146097"
  define doq where "doq = (doe - 36524 * min 3 (doe div 36524)) mod 1461"
  define doy where "doy = doq - 365 * min 3 (doq div 365)"
  define mp where "mp = (5 * doy + 2) div 153"
  have q: "0 \<le> doq" "doq \<le> 1460" unfolding doq_def by simp_all
  have y: "0 \<le> doy" "doy \<le> 365"
    using day_of_year_range [OF q] unfolding doy_def by simp_all
  have p: "0 \<le> mp \<and> mp \<le> 11" using month_index_range [OF y] unfolding mp_def .
  have dd: "1 \<le> doy - (153 * mp + 2) div 5 + 1 \<and> doy - (153 * mp + 2) div 5 + 1 \<le> 31"
    using day_of_month_range [OF y] unfolding mp_def .
  have "civil days =
      (400 * ((days + 719468) div 146097) + 100 * min 3 (doe div 36524) +
         4 * ((doe - 36524 * min 3 (doe div 36524)) div 1461) + min 3 (doq div 365) +
         (if (if mp < 10 then mp + 3 else mp - 9) \<le> 2 then 1 else 0),
       (if mp < 10 then mp + 3 else mp - 9),
       doy - (153 * mp + 2) div 5 + 1)"
    unfolding civil_def Let_def mp_def doy_def doq_def doe_def ..
  with assms have m: "m = (if mp < 10 then mp + 3 else mp - 9)"
    and d: "d = doy - (153 * mp + 2) div 5 + 1"
    by simp_all
  show ?thesis using p dd unfolding m d by auto
qed

lemma Format_shape:
  assumes "0 \<le> fst (civil (t div 1000000000 div 86400))"
    and "fst (civil (t div 1000000000 div 86400)) \<le> 9999"
  shows "\<exists>year month day hour minute second.
     Format t = year @ month @ day @ ''T'' @ hour @ minute @ second @ ''Z'' \<and>
     length year = 4 \<and> length month = 2 \<and> length day = 2 \<and>
     length hour = 2 \<and> length minute = 2 \<and> length second = 2 \<and>
     set (year @ month @ day @ hour @ minute @ second) \<subseteq> set ''0123456789''"
proof -
  obtain y m d where c: "civil (t div 1000000000 div 86400) = (y, m, d)"
    by (cases "civil (t div 1000000000 div 86400)")
  from civil_range [OF c] have md: "1 \<le> m" "m \<le> 12" "1 \<le> d" "d \<le> 31" by simp_all
  from assms c have yr: "0 \<le> y" "y < 10000" by simp_all
  define secs where "secs = t div 1000000000 mod 86400"
  have s: "0 \<le> secs" "secs < 86400" unfolding secs_def by simp_all
  then have h: "0 \<le> secs div 3600" "secs div 3600 < 100" by arith+
  have mi: "0 \<le> secs mod 3600 div 60" "secs mod 3600 div 60 < 100" by arith+
  have se: "0 \<le> secs mod 60" "secs mod 60 < 100" by arith+
  have f: "Format t = appendInt y 4 @ appendInt m 2 @ appendInt d 2 @ ''T'' @
      appendInt (secs div 3600) 2 @ appendInt (secs mod 3600 div 60) 2 @
      appendInt (secs mod 60) 2 @ ''Z''"
    unfolding Format_def Let_def c secs_def by simp
  have l: "length (appendInt y 4) = 4" "length (appendInt m 2) = 2"
    "length (appendInt d 2) = 2" "length (appendInt (secs div 3600) 2) = 2"
    "length (appendInt (secs mod 3600 div 60) 2) = 2" "length (appendInt (secs mod 60) 2) = 2"
    using yr md h mi se by (simp_all add: appendInt_4 appendInt_2)
  have g: "set (appendInt y 4 @ appendInt m 2 @ appendInt d 2 @
      appendInt (secs div 3600) 2 @ appendInt (secs mod 3600 div 60) 2 @
      appendInt (secs mod 60) 2) \<subseteq> set ''0123456789''"
    using appendInt_digits [of y 4] appendInt_digits [of m 2] appendInt_digits [of d 2]
      appendInt_digits [of "secs div 3600" 2] appendInt_digits [of "secs mod 3600 div 60" 2]
      appendInt_digits [of "secs mod 60" 2] yr md h mi se
    by (simp only: set_append Un_subset_iff)
  from f l g show ?thesis by blast
qed

lemma transfer_creates:
  "transfer W g server src dst f targetName fMod fs = Some (evs, fs') \<Longrightarrow>
   Create p \<in> set evs \<or> fs' p \<noteq> fs p \<Longrightarrow>
   p = dst @ ''/'' @ server @ ''/'' @ targetName"
  by (auto simp: transfer_def Let_def split: sum.splits option.splits prod.splits if_splits)

lemma CopyFiles_entry_creates:
  "CopyFiles_entry W g server src dst f fs = Some (evs, fs') \<Longrightarrow>
   Create p \<in> set evs \<or> fs' p \<noteq> fs p \<Longrightarrow>
   \<exists>finfo. d_info f = Inr finfo \<and>
     p = dst @ ''/'' @ server @ ''/'' @ fi_name finfo @ (if compress g then ''.gz'' else [])"
  using transfer_creates [of W g server src dst f _ _ fs evs fs' p]
  by (auto simp: CopyFiles_entry_def Let_def split: sum.splits if_splits)

lemma CopyFiles_loop_creates:
  "CopyFiles_loop W g server src dst sdir fs = Some (evs, fs') \<Longrightarrow>
   Create p \<in> set evs \<or> fs' p \<noteq> fs p \<Longrightarrow>
   \<exists>f\<in>set sdir. \<exists>finfo. d_info f = Inr finfo \<and>
     p = dst @ ''/'' @ server @ ''/'' @ fi_name finfo @ (if compress g then ''.gz'' else [])"
proof (induction sdir arbitrary: fs evs)
  case Nil
  then show ?case by simp
next
  case (Cons a sdir)
  from Cons.prems(1) obtain ea fa er where
    a: "CopyFiles_entry W g server src dst a fs = Some (ea, fa)"
    and r: "CopyFiles_loop W g server src dst sdir fa = Some (er, fs')"
    and ev: "evs = ea @ er"
    by (auto split: option.splits prod.splits)
  from Cons.prems(2) ev
  have "(Create p \<in> set ea \<or> fa p \<noteq> fs p) \<or> (Create p \<in> set er \<or> fs' p \<noteq> fa p)"
    by auto
  then show ?case
  proof
    assume "Create p \<in> set ea \<or> fa p \<noteq> fs p"
    from CopyFiles_entry_creates [OF a this] show ?thesis by auto
  next
    assume "Create p \<in> set er \<or> fs' p \<noteq> fa p"
    from Cons.IH [OF r this] show ?thesis by auto
  qed
qed

lemma CopyFiles_creates:
  assumes "CopyFiles W g server src dst fs = Some (out, evs, fs')"
    and "Create p \<in> set evs \<or> fs' p \<noteq> fs p"
  shows "\<exists>sdir. w_readdir W = Inr sdir \<and>
     (\<exists>f\<in>set sdir. \<exists>finfo. d_info f = Inr finfo \<and>
        p = dst @ ''/'' @ server @ ''/'' @ fi_name finfo @ (if compress g then ''.gz'' else []))"
proof (cases "w_readdir W")
  case (Inl err)
  then have "CopyFiles_scan W g server src dst fs =
      Some (Returned, [ReadDir src, Error_unable_to_open server src err], fs)"
    by (rule CopyFiles_scan_unlisted)
  with assms have False
    by (auto simp: CopyFiles_def Let_def split: option.splits if_splits)
  then show ?thesis ..
next
  case (Inr sdir)
  obtain el fl where l: "CopyFiles_loop W g server src dst sdir fs = Some (el, fl)"
    using CopyFiles_loop_returns [of W g server src dst sdir fs] by auto
  then have s: "CopyFiles_scan W g server src dst fs =
      Some (Returned, [ReadDir src] @ el @ [Info_done server], fl)"
    using Inr by (simp add: CopyFiles_scan_def)
  from assms s have "Create p \<in> set el \<or> fl p \<noteq> fs p"
    by (auto simp: CopyFiles_def Let_def split: option.splits if_splits)
  from CopyFiles_loop_creates [OF l this] Inr show ?thesis by simp
qed

lemma Format_sample_start: "Format 1704067200000000000 = ''20240101T000000Z''"
  by code_simp

lemma Format_sample_end: "Format 1704070800000000000 = ''20240101T010000Z''"
  by code_simp

lemma sample_main_destination:
  "main_destination ((=) ''/data'') [] ''/data'' ''c1'' (sample_globals c) =
     ''/data/c1/20240101T000000Z-20240101T010000Z''"
  by (simp add: main_destination_def destination_root_def sample_globals_def
      Format_sample_start Format_sample_end)

lemma sample_CopyFiles:
  "CopyFiles sample_world (sample_globals True) ''srv1'' ''//host1/logs'' dst Map.empty =
   Some (Returned,
         [Info_scanning ''//host1/logs'', Stat (dst @ ''/srv1''), ReadDir ''//host1/logs'',
          Open ''//host1/logs/app.tmp'', Create (dst @ ''/srv1/app.tmp.gz''),
          NewWriter (dst @ ''/srv1/app.tmp.gz''), Close Source ''//host1/logs/app.tmp'',
          Close Compressor (dst @ ''/srv1/app.tmp.gz''),
          Close Destination (dst @ ''/srv1/app.tmp.gz''),
          Chtimes (dst @ ''/srv1/app.tmp.gz'') 1704074400000000000 1704069000000000000,
          Info_done ''srv1''],
         [dst @ ''/srv1/app.tmp.gz'' \<mapsto>
            \<lparr>content = [0x1F, 0x8B, 1, 2, 3], mtime = 1704069000000000000\<rparr>])"
proof -
  have o: "d_open sample_entry = Inr [([1, 2, 3], None)]" and cr: "d_create sample_entry = None"
    by (simp_all add: sample_entry_def)
  from transfer_copied [OF o cr sample_entry_copied, of sample_world "sample_globals True"
      "''srv1''" "''//host1/logs''" dst "''app.tmp'' @ ''.gz''" 1704069000000000000 Map.empty]
  have t: "transfer sample_world (sample_globals True) ''srv1'' ''//host1/logs'' dst sample_entry
      (''app.tmp'' @ (if True then ''.gz'' else [])) 1704069000000000000 Map.empty =
      Some ([Open ''//host1/logs/app.tmp'', Create (dst @ ''/srv1/app.tmp.gz''),
          NewWriter (dst @ ''/srv1/app.tmp.gz''), Close Source ''//host1/logs/app.tmp'',
          Close Compressor (dst @ ''/srv1/app.tmp.gz''),
          Close Destination (dst @ ''/srv1/app.tmp.gz''),
          Chtimes (dst @ ''/srv1/app.tmp.gz'') 1704074400000000000 1704069000000000000],
         [dst @ ''/srv1/app.tmp.gz'' \<mapsto>
            \<lparr>content = [0x1F, 0x8B, 1, 2, 3], mtime = 1704069000000000000\<rparr>])"
    by (simp add: sample_entry_def sample_globals_def sample_world_def sample_gzip_def)
  have l: "CopyFiles_loop sample_world (sample_globals True) ''srv1'' ''//host1/logs'' dst
      [sample_entry] Map.empty =
      Some ([Open ''//host1/logs/app.tmp'', Create (dst @ ''/srv1/app.tmp.gz''),
          NewWriter (dst @ ''/srv1/app.tmp.gz''), Close Source ''//host1/logs/app.tmp'',
          Close Compressor (dst @ ''/srv1/app.tmp.gz''),
          Close Destination (dst @ ''/srv1/app.tmp.gz''),
          Chtimes (dst @ ''/srv1/app.tmp.gz'') 1704074400000000000 1704069000000000000],
         [dst @ ''/srv1/app.tmp.gz'' \<mapsto>
            \<lparr>content = [0x1F, 0x8B, 1, 2, 3], mtime = 1704069000000000000\<rparr>])"
    unfolding CopyFiles_loop.simps sample_entry_selected t by simp
  have r: "w_readdir sample_world = Inr [sample_entry]" "w_stat sample_world = None"
    by (simp_all add: sample_world_def)
  show ?thesis
    by (simp add: CopyFiles_def CopyFiles_scan_def Let_def r l del: CopyFiles_loop.simps)
qed


text \<open>
  Claim C5, as amended. Every file that a synchronizer started by \<^verbatim>\<open>main\<close> creates
  or changes lies at the path made of the destination root, the cluster, the folder of
  the run, the server and the name of a listed file, with \<^verbatim>\<open>.gz\<close> appended exactly
  when compression is on. The folder of the run is the stamp of the start of the
  window, a dash, and the stamp of the end of the window. Each stamp, for a year from
  0 to 9999, is four digits of year, two of month, two of day, the letter T, two digits
  each of hour, minute and second, and the letter Z.
\<close>

theorem output_path:
  assumes "CopyFiles W g server src (main_destination IsAbs wd configured cluster g) fs =
      Some (out, evs, fs')"
    and "Create p \<in> set evs \<or> fs' p \<noteq> fs p"
  shows "(\<exists>sdir f finfo. w_readdir W = Inr sdir \<and> f \<in> set sdir \<and> d_info f = Inr finfo \<and>
       p = destination_root IsAbs wd configured @ ''/'' @ cluster @ ''/'' @
           Format (startTime g) @ ''-'' @ Format (endTime g) @ ''/'' @ server @ ''/'' @
           fi_name finfo @ (if compress g then ''.gz'' else [])) \<and>
     (\<forall>t\<in>{startTime g, endTime g}.
        0 \<le> fst (civil (t div 1000000000 div 86400)) \<and>
        fst (civil (t div 1000000000 div 86400)) \<le> 9999 \<longrightarrow>
        (\<exists>year month day hour minute second.
           Format t = year @ month @ day @ ''T'' @ hour @ minute @ second @ ''Z'' \<and>
           length year = 4 \<and> length month = 2 \<and> length day = 2 \<and>
           length hour = 2 \<and> length minute = 2 \<and> length second = 2 \<and>
           set (year @ month @ day @ hour @ minute @ second) \<subseteq> set ''0123456789''))"
proof -
  from CopyFiles_creates [OF assms] obtain sdir f finfo where
    h: "w_readdir W = Inr sdir" "f \<in> set sdir" "d_info f = Inr finfo"
    "p = main_destination IsAbs wd configured cluster g @ ''/'' @ server @ ''/'' @
         fi_name finfo @ (if compress g then ''.gz'' else [])"
    by blast
  then have "w_readdir W = Inr sdir \<and> f \<in> set sdir \<and> d_info f = Inr finfo \<and>
     p = destination_root IsAbs wd configured @ ''/'' @ cluster @ ''/'' @
         Format (startTime g) @ ''-'' @ Format (endTime g) @ ''/'' @ server @ ''/'' @
         fi_name finfo @ (if compress g then ''.gz'' else [])"
    by (simp add: main_destination_def)
  then have 1: "\<exists>sdir f finfo. w_readdir W = Inr sdir \<and> f \<in> set sdir \<and> d_info f = Inr finfo \<and>
       p = destination_root IsAbs wd configured @ ''/'' @ cluster @ ''/'' @
           Format (startTime g) @ ''-'' @ Format (endTime g) @ ''/'' @ server @ ''/'' @
           fi_name finfo @ (if compress g then ''.gz'' else [])"
    by blast
  have 2: "\<forall>t\<in>{startTime g, endTime g}.
        0 \<le> fst (civil (t div 1000000000 div 86400)) \<and>
        fst (civil (t div 1000000000 div 86400)) \<le> 9999 \<longrightarrow>
        (\<exists>year month day hour minute second.
           Format t = year @ month @ day @ ''T'' @ hour @ minute @ second @ ''Z'' \<and>
           length year = 4 \<and> length month = 2 \<and> length day = 2 \<and>
           length hour = 2 \<and> length minute = 2 \<and> length second = 2 \<and>
           set (year @ month @ day @ hour @ minute @ second) \<subseteq> set ''0123456789'')"
    using Format_shape by blast
  from 1 2 show ?thesis by (rule conjI)
qed

theorem output_path_witness:
  "(\<exists>sdir f finfo. w_readdir sample_world = Inr sdir \<and> f \<in> set sdir \<and> d_info f = Inr finfo \<and>
     ''/data/c1/20240101T000000Z-20240101T010000Z/srv1/app.tmp.gz'' =
       destination_root ((=) ''/data'') [] ''/data'' @ ''/'' @ ''c1'' @ ''/'' @
       Format (startTime (sample_globals True)) @ ''-'' @ Format (endTime (sample_globals True)) @
       ''/'' @ ''srv1'' @ ''/'' @ fi_name finfo @
       (if compress (sample_globals True) then ''.gz'' else [])) \<and>
   length (Format (startTime (sample_globals True))) = 16 \<and>
   length (Format (endTime (sample_globals True))) = 16"
proof -
  let ?dst = "main_destination ((=) ''/data'') [] ''/data'' ''c1'' (sample_globals True)"
  let ?evs = "[Info_scanning ''//host1/logs'', Stat (?dst @ ''/srv1''), ReadDir ''//host1/logs'',
          Open ''//host1/logs/app.tmp'', Create (?dst @ ''/srv1/app.tmp.gz''),
          NewWriter (?dst @ ''/srv1/app.tmp.gz''), Close Source ''//host1/logs/app.tmp'',
          Close Compressor (?dst @ ''/srv1/app.tmp.gz''),
          Close Destination (?dst @ ''/srv1/app.tmp.gz''),
          Chtimes (?dst @ ''/srv1/app.tmp.gz'') 1704074400000000000 1704069000000000000,
          Info_done ''srv1'']"
  have "Create ''/data/c1/20240101T000000Z-20240101T010000Z/srv1/app.tmp.gz'' \<in> set ?evs"
    unfolding sample_main_destination by simp
  then have "Create ''/data/c1/20240101T000000Z-20240101T010000Z/srv1/app.tmp.gz'' \<in> set ?evs \<or>
      [?dst @ ''/srv1/app.tmp.gz'' \<mapsto>
            \<lparr>content = [0x1F, 0x8B, 1, 2, 3], mtime = 1704069000000000000\<rparr>]
        ''/data/c1/20240101T000000Z-20240101T010000Z/srv1/app.tmp.gz'' \<noteq>
      Map.empty ''/data/c1/20240101T000000Z-20240101T010000Z/srv1/app.tmp.gz''"
    by (rule disjI1)
  note T = output_path [OF sample_CopyFiles [of ?dst] this]
  have y1: "fst (civil (startTime (sample_globals True) div 1000000000 div 86400)) = 2024"
    unfolding sample_globals_def by code_simp
  have y2: "fst (civil (endTime (sample_globals True) div 1000000000 div 86400)) = 2024"
    unfolding sample_globals_def by code_simp
  have m1: "startTime (sample_globals True) \<in>
      {startTime (sample_globals True), endTime (sample_globals True)}" by simp
  have m2: "endTime (sample_globals True) \<in>
      {startTime (sample_globals True), endTime (sample_globals True)}" by simp
  from T [THEN conjunct2, rule_format, OF m1] y1
  have 1: "length (Format (startTime (sample_globals True))) = 16" by auto
  from T [THEN conjunct2, rule_format, OF m2] y2
  have 2: "length (Format (endTime (sample_globals True))) = 16" by auto
  from T [THEN conjunct1] 1 2 show ?thesis by (intro conjI)
qed

text \<open>
  In the sample run with compression the one file written has a dash between the two
  stamps; the path with the letter T between the stamps and the letter Z after them is
  not written.
\<close>

theorem output_path_counterexample:
  "map_option (dom \<circ> snd \<circ> snd)
     (CopyFiles sample_world (sample_globals True) ''srv1'' ''//host1/logs''
        (main_destination ((=) ''/data'') [] ''/data'' ''c1'' (sample_globals True)) Map.empty) =
     Some {''/data/c1/20240101T000000Z-20240101T010000Z/srv1/app.tmp.gz''} \<and>
   ''/data'' @ ''/'' @ ''c1'' @ ''/'' @ Format (startTime (sample_globals True)) @ ''T'' @
     Format (endTime (sample_globals True)) @ ''Z'' @ ''/'' @ ''srv1'' @ ''/'' @ ''app.tmp'' @ ''.gz'' =
     ''/data/c1/20240101T000000ZT20240101T010000ZZ/srv1/app.tmp.gz'' \<and>
   ''/data/c1/20240101T000000ZT20240101T010000ZZ/srv1/app.tmp.gz'' \<notin>
     {''/data/c1/20240101T000000Z-20240101T010000Z/srv1/app.tmp.gz''}"
proof -
  have 1: "map_option (dom \<circ> snd \<circ> snd)
     (CopyFiles sample_world (sample_globals True) ''srv1'' ''//host1/logs''
        (main_destination ((=) ''/data'') [] ''/data'' ''c1'' (sample_globals True)) Map.empty) =
     Some {''/data/c1/20240101T000000Z-20240101T010000Z/srv1/app.tmp.gz''}"
    unfolding sample_CopyFiles sample_main_destination by simp
  have 2: "''/data'' @ ''/'' @ ''c1'' @ ''/'' @ Format (startTime (sample_globals True)) @ ''T'' @
     Format (endTime (sample_globals True)) @ ''Z'' @ ''/'' @ ''srv1'' @ ''/'' @ ''app.tmp'' @ ''.gz'' =
     ''/data/c1/20240101T000000ZT20240101T010000ZZ/srv1/app.tmp.gz''"
    by (simp add: sample_globals_def Format_sample_start Format_sample_end)
  have 3: "''/data/c1/20240101T000000ZT20240101T010000ZZ/srv1/app.tmp.gz'' \<notin>
     {''/data/c1/20240101T000000Z-20240101T010000Z/srv1/app.tmp.gz''}"
    by simp
  from 1 2 3 show ?thesis by blast
qed



end
